theory Spec2Isabelle
  imports Complex_Main "HOL-Library.Stream"
begin

section \<open>Plinko: the physics step, collision resolution and scoring\<close>

text \<open>
  A shallow embedding of \<^verbatim>\<open>plinko-game-final.py\<close>: the classes \<^verbatim>\<open>Particle\<close>,
  \<^verbatim>\<open>Ball\<close>, \<^verbatim>\<open>Peg\<close> and the simulation part of \<^verbatim>\<open>PlinkoGame\<close>
  (\<^verbatim>\<open>init_pegs\<close>, \<^verbatim>\<open>init_boxes\<close>, \<^verbatim>\<open>reset_game\<close>, \<^verbatim>\<open>update_play\<close>,
  \<^verbatim>\<open>handle_ball_box_score\<close> and the ball drop of \<^verbatim>\<open>handle_play_events\<close>).
  Drawing, buttons, fonts and the menu screens are left out: they read the state only.

  Conventions of the model:
  \<^item> Python's \<^verbatim>\<open>float\<close> is modelled by \<^typ>\<open>real\<close>: arithmetic is exact, so a result
    that Python gets up to rounding is got exactly here. Python's \<^verbatim>\<open>int\<close> is \<^typ>\<open>int\<close>
    where the value stays an integer (score, counters, lifetime, rectangle coordinates).
  \<^item> Mutation is explicit state passing: a method returns the updated object.
  \<^item> The module \<^verbatim>\<open>random\<close> is an explicit stream of draws of \<^verbatim>\<open>random.random()\<close>
    that every randomised operation consumes from and returns.
  \<^item> \<^verbatim>\<open>ZeroDivisionError\<close> of \<^verbatim>\<open>/\<close> and \<^verbatim>\<open>ValueError\<close> of \<^verbatim>\<open>math.sqrt\<close>
    are values of the type \<open>py_error\<close>; a function that may raise returns a sum.
\<close>

subsection \<open>Global settings\<close>

definition SCREEN_WIDTH :: int where "SCREEN_WIDTH = 800"
definition SCREEN_HEIGHT :: int where "SCREEN_HEIGHT = 600"

definition BALL_RADIUS :: int where "BALL_RADIUS = 12"
definition GRAVITY :: real where "GRAVITY = 0.4"
definition MAX_BALL_SPEED :: real where "MAX_BALL_SPEED = 25"
definition WALL_BOUNCE_FACTOR :: real where "WALL_BOUNCE_FACTOR = 0.8"
definition COLLISION_DAMPING :: real where "COLLISION_DAMPING = 0.9"

definition PEG_RADIUS :: int where "PEG_RADIUS = 12"
definition PEG_SPACING_X :: int where "PEG_SPACING_X = 70"
definition PEG_SPACING_Y :: int where "PEG_SPACING_Y = 70"
definition PEG_OFFSET_TOP :: int where "PEG_OFFSET_TOP = 80"
definition NUM_PEG_ROWS :: nat where "NUM_PEG_ROWS = 8"

definition BOX_COUNT :: nat where "BOX_COUNT = 5"
definition BOX_HEIGHT :: int where "BOX_HEIGHT = 80"
definition BOX_VALUES :: "int list" where "BOX_VALUES = [10, 20, 50, 20, 10]"

type_synonym colour = "nat \<times> nat \<times> nat"

definition WHITE :: colour where "WHITE = (255, 255, 255)"
definition RED :: colour where "RED = (255, 0, 0)"
definition GREEN :: colour where "GREEN = (0, 255, 0)"
definition BLUE :: colour where "BLUE = (0, 0, 255)"
definition YELLOW :: colour where "YELLOW = (255, 255, 0)"
definition CYAN :: colour where "CYAN = (0, 255, 255)"
definition MAGENTA :: colour where "MAGENTA = (255, 0, 255)"
definition ORANGE :: colour where "ORANGE = (255, 165, 0)"
definition PURPLE :: colour where "PURPLE = (128, 0, 128)"

definition PARTICLE_COUNT_ON_COLLISION :: nat where "PARTICLE_COUNT_ON_COLLISION = 10"
definition PARTICLE_LIFETIME :: int where "PARTICLE_LIFETIME = 30"
definition PARTICLE_SPEED_RANGE :: "real \<times> real" where "PARTICLE_SPEED_RANGE = (1, 4)"

subsection \<open>Library operations: errors and the random source\<close>

datatype py_error = ZeroDivisionError | ValueError

text \<open>\<^verbatim>\<open>a / b\<close> on floats raises when the divisor is zero.\<close>

definition py_div :: "real \<Rightarrow> real \<Rightarrow> py_error + real" where
  "py_div a b = (if b = 0 then Inl ZeroDivisionError else Inr (a / b))"

text \<open>\<^verbatim>\<open>math.sqrt\<close> raises on a negative argument.\<close>

definition math_sqrt :: "real \<Rightarrow> py_error + real" where
  "math_sqrt a = (if a < 0 then Inl ValueError else Inr (sqrt a))"

text \<open>
  The random source is the stream of the future results of \<^verbatim>\<open>random.random()\<close>
  (numbers of the interval from 0 to 1, 1 excluded). \<^verbatim>\<open>random.uniform(a, b)\<close> is
  \<^verbatim>\<open>a + (b - a) * random()\<close>; \<^verbatim>\<open>random.choice(seq)\<close> takes one draw and scales it
  to an index of the sequence.
\<close>

type_synonym rng = "real stream"

definition random_uniform :: "real \<Rightarrow> real \<Rightarrow> rng \<Rightarrow> real \<times> rng" where
  "random_uniform a b rs = (a + (b - a) * shd rs, stl rs)"

definition random_choice :: "'a list \<Rightarrow> rng \<Rightarrow> 'a \<times> rng" where
  "random_choice xs rs =
     (xs ! min (length xs - 1) (nat \<lfloor>shd rs * real (length xs)\<rfloor>), stl rs)"

definition clamp :: "int \<Rightarrow> int \<Rightarrow> int \<Rightarrow> int" where
  "clamp val min_val max_val = max min_val (min val max_val)"

subsection \<open>Particle\<close>

record particle =
  particle_x :: real
  particle_y :: real
  particle_vx :: real
  particle_vy :: real
  particle_color :: colour
  lifetime :: int

definition Particle :: "real \<Rightarrow> real \<Rightarrow> real \<Rightarrow> real \<Rightarrow> colour \<Rightarrow> int \<Rightarrow> particle" where
  "Particle x y vx vy color lt =
     \<lparr>particle_x = x, particle_y = y, particle_vx = vx, particle_vy = vy,
      particle_color = color, lifetime = lt\<rparr>"

text \<open>\<^verbatim>\<open>Particle.update\<close>: the position moves by the old velocity, then the velocity falls.\<close>

definition Particle_update :: "particle \<Rightarrow> particle" where
  "Particle_update p =
     p\<lparr>particle_x := particle_x p + particle_vx p,
       particle_y := particle_y p + particle_vy p,
       particle_vy := particle_vy p + 0.1,
       lifetime := lifetime p - 1\<rparr>"

subsection \<open>Peg\<close>

record peg =
  peg_x :: real
  peg_y :: real
  peg_radius :: real
  peg_color :: colour
  particles :: "particle list"

definition Peg :: "real \<Rightarrow> real \<Rightarrow> real \<Rightarrow> colour \<Rightarrow> peg" where
  "Peg x y radius color =
     \<lparr>peg_x = x, peg_y = y, peg_radius = radius, peg_color = color, particles = []\<rparr>"

text \<open>\<^verbatim>\<open>Peg.update\<close>: every particle is updated, then those with no lifetime left go.\<close>

definition Peg_update :: "peg \<Rightarrow> peg" where
  "Peg_update pg =
     pg\<lparr>particles := filter (\<lambda>p. lifetime p > 0) (map Particle_update (particles pg))\<rparr>"

subsection \<open>Ball\<close>

record ball =
  ball_x :: real
  ball_y :: real
  ball_radius :: real
  ball_color :: colour
  ball_vx :: real
  ball_vy :: real
  finalized :: bool

definition Ball :: "real \<Rightarrow> real \<Rightarrow> real \<Rightarrow> colour \<Rightarrow> ball" where
  "Ball x y radius color =
     \<lparr>ball_x = x, ball_y = y, ball_radius = radius, ball_color = color,
      ball_vx = 0, ball_vy = 0, finalized = False\<rparr>"

text \<open>
  The particle loop of \<^verbatim>\<open>handle_peg_collision\<close>: \<open>n\<close> times, draw a speed and an angle
  and append a particle at the ball's position to the peg's list.
\<close>

fun spawn_particles :: "nat \<Rightarrow> ball \<Rightarrow> colour \<Rightarrow> peg \<Rightarrow> rng \<Rightarrow> peg \<times> rng" where
  "spawn_particles 0 b color pg rs = (pg, rs)"
| "spawn_particles (Suc n) b color pg rs =
     (let (speed_mag, rs1) = random_uniform (fst PARTICLE_SPEED_RANGE) (snd PARTICLE_SPEED_RANGE) rs;
          (angle, rs2) = random_uniform 0 (2 * pi) rs1;
          vx_p = speed_mag * cos angle;
          vy_p = speed_mag * sin angle;
          pg1 = pg\<lparr>particles := particles pg @
                  [Particle (ball_x b) (ball_y b) vx_p vy_p color PARTICLE_LIFETIME]\<rparr>
      in spawn_particles n b color pg1 rs2)"

text \<open>
  \<^verbatim>\<open>Ball.handle_peg_collision\<close>. The result is the ball, the peg (its particle list
  may have grown) and the rest of the random source, or the error raised.
\<close>

definition handle_peg_collision :: "ball \<Rightarrow> peg \<Rightarrow> rng \<Rightarrow> py_error + (ball \<times> peg \<times> rng)" where
  "handle_peg_collision b pg rs =
     (let dx = ball_x b - peg_x pg;
          dy = ball_y b - peg_y pg
      in case math_sqrt (dx * dx + dy * dy) of
           Inl e \<Rightarrow> Inl e
         | Inr dist_centers \<Rightarrow>
             (let min_dist = ball_radius b + peg_radius pg
              in if dist_centers < min_dist then
                   (let overlap = min_dist - dist_centers
                    in case (if dist_centers = 0 then Inr (1, 0)
                             else (case py_div dx dist_centers of
                                     Inl e \<Rightarrow> Inl e
                                   | Inr nx \<Rightarrow>
                                       (case py_div dy dist_centers of
                                          Inl e \<Rightarrow> Inl e
                                        | Inr ny \<Rightarrow> Inr (nx, ny)))) of
                         Inl e \<Rightarrow> Inl e
                       | Inr (nx, ny) \<Rightarrow>
                           (let b1 = b\<lparr>ball_x := ball_x b + nx * overlap\<rparr>;
                                b2 = b1\<lparr>ball_y := ball_y b1 + ny * overlap\<rparr>;
                                dot = ball_vx b2 * nx + ball_vy b2 * ny;
                                b3 = b2\<lparr>ball_vx := ball_vx b2 - 2 * dot * nx * COLLISION_DAMPING\<rparr>;
                                b4 = b3\<lparr>ball_vy := ball_vy b3 - 2 * dot * ny * COLLISION_DAMPING\<rparr>;
                                (color_particle, rs1) =
                                   random_choice [WHITE, YELLOW, BLUE, CYAN, MAGENTA] rs;
                                (pg1, rs2) =
                                   spawn_particles PARTICLE_COUNT_ON_COLLISION b4 color_particle pg rs1
                            in Inr (b4, pg1, rs2)))
                 else Inr (b, pg, rs)))"

text \<open>The loop \<^verbatim>\<open>for peg in pegs: self.handle_peg_collision(peg)\<close> of \<^verbatim>\<open>Ball.update\<close>.\<close>

fun update_peg_collisions :: "ball \<Rightarrow> peg list \<Rightarrow> rng \<Rightarrow> py_error + (ball \<times> peg list \<times> rng)" where
  "update_peg_collisions b [] rs = Inr (b, [], rs)"
| "update_peg_collisions b (pg # pgs) rs =
     (case handle_peg_collision b pg rs of
        Inl e \<Rightarrow> Inl e
      | Inr (b1, pg1, rs1) \<Rightarrow>
          (case update_peg_collisions b1 pgs rs1 of
             Inl e \<Rightarrow> Inl e
           | Inr (b2, pgs2, rs2) \<Rightarrow> Inr (b2, pg1 # pgs2, rs2)))"

text \<open>
  \<^verbatim>\<open>Ball.update\<close>, block by block in the order of the source: gravity, the speed
  clamp, the integration of the position, the walls, the ceiling, the pegs and the check
  against the top of the scoring zone.
\<close>

definition update_gravity :: "ball \<Rightarrow> ball" where
  "update_gravity b = b\<lparr>ball_vy := ball_vy b + GRAVITY\<rparr>"

definition update_clamp_speed :: "ball \<Rightarrow> py_error + ball" where
  "update_clamp_speed b =
     (case math_sqrt (ball_vx b * ball_vx b + ball_vy b * ball_vy b) of
        Inl e \<Rightarrow> Inl e
      | Inr speed \<Rightarrow>
          if speed > MAX_BALL_SPEED then
            (case py_div MAX_BALL_SPEED speed of
               Inl e \<Rightarrow> Inl e
             | Inr factor \<Rightarrow>
                 Inr (b\<lparr>ball_vx := ball_vx b * factor, ball_vy := ball_vy b * factor\<rparr>))
          else Inr b)"

definition update_integrate :: "ball \<Rightarrow> ball" where
  "update_integrate b = b\<lparr>ball_x := ball_x b + ball_vx b, ball_y := ball_y b + ball_vy b\<rparr>"

definition update_walls :: "ball \<Rightarrow> ball" where
  "update_walls b =
     (if ball_x b - ball_radius b < 0 then
        b\<lparr>ball_x := ball_radius b, ball_vx := - ball_vx b * WALL_BOUNCE_FACTOR\<rparr>
      else if ball_x b + ball_radius b > real_of_int SCREEN_WIDTH then
        b\<lparr>ball_x := real_of_int SCREEN_WIDTH - ball_radius b,
          ball_vx := - ball_vx b * WALL_BOUNCE_FACTOR\<rparr>
      else b)"

definition update_ceiling :: "ball \<Rightarrow> ball" where
  "update_ceiling b =
     (if ball_y b - ball_radius b < 0 then
        b\<lparr>ball_y := ball_radius b, ball_vy := - ball_vy b * WALL_BOUNCE_FACTOR\<rparr>
      else b)"

definition update_finalize :: "ball \<Rightarrow> real \<Rightarrow> ball" where
  "update_finalize b box_y_top =
     (if ball_y b + ball_radius b \<ge> box_y_top then b\<lparr>finalized := True\<rparr> else b)"

definition Ball_update :: "ball \<Rightarrow> peg list \<Rightarrow> real \<Rightarrow> rng \<Rightarrow> py_error + (ball \<times> peg list \<times> rng)" where
  "Ball_update b pgs box_y_top rs =
     (case update_clamp_speed (update_gravity b) of
        Inl e \<Rightarrow> Inl e
      | Inr b1 \<Rightarrow>
          (case update_peg_collisions (update_ceiling (update_walls (update_integrate b1))) pgs rs of
             Inl e \<Rightarrow> Inl e
           | Inr (b2, pgs1, rs1) \<Rightarrow> Inr (update_finalize b2 box_y_top, pgs1, rs1)))"

subsection \<open>The game: pegs, boxes, reset, the play step and scoring\<close>

text \<open>A \<^verbatim>\<open>pygame.Rect\<close> with integer coordinates and its derived attributes.\<close>

record rect =
  rect_x :: int
  rect_y :: int
  rect_w :: int
  rect_h :: int

definition Rect :: "int \<Rightarrow> int \<Rightarrow> int \<Rightarrow> int \<Rightarrow> rect" where
  "Rect l t w h = \<lparr>rect_x = l, rect_y = t, rect_w = w, rect_h = h\<rparr>"

definition rect_left :: "rect \<Rightarrow> int" where "rect_left r = rect_x r"
definition rect_right :: "rect \<Rightarrow> int" where "rect_right r = rect_x r + rect_w r"
definition rect_top :: "rect \<Rightarrow> int" where "rect_top r = rect_y r"

datatype game_state =
  STATE_MENU | STATE_PLAY | STATE_PAUSE | STATE_GAMEOVER | STATE_HIGHSCORE | STATE_SETTINGS

record game =
  state :: game_state
  score :: int
  balls_allowed :: int
  balls_dropped :: int
  best_score :: int
  pegs :: "peg list"
  balls :: "ball list"
  boxes :: "(rect \<times> int) list"
  game_over_reason :: string

text \<open>
  \<^verbatim>\<open>init_pegs\<close>: the inner loop appends the pegs of one row, the outer loop runs over
  the rows. Each peg takes its colour from the random source.
\<close>

fun init_pegs_row :: "real \<Rightarrow> real \<Rightarrow> nat list \<Rightarrow> peg list \<Rightarrow> rng \<Rightarrow> peg list \<times> rng" where
  "init_pegs_row start_x y_pos [] acc rs = (acc, rs)"
| "init_pegs_row start_x y_pos (i # is) acc rs =
     (let x_pos = start_x + real i * real_of_int PEG_SPACING_X;
          (color, rs1) = random_choice [RED, BLUE, GREEN, ORANGE, PURPLE] rs
      in init_pegs_row start_x y_pos is
           (acc @ [Peg x_pos y_pos (real_of_int PEG_RADIUS) color]) rs1)"

fun init_pegs_rows :: "nat list \<Rightarrow> peg list \<Rightarrow> rng \<Rightarrow> peg list \<times> rng" where
  "init_pegs_rows [] acc rs = (acc, rs)"
| "init_pegs_rows (row # rows) acc rs =
     (let peg_count = row + 3;
          row_width = (int peg_count - 1) * PEG_SPACING_X;
          start_x = real_of_int (SCREEN_WIDTH - row_width) / 2;
          y_pos = real_of_int (PEG_OFFSET_TOP + int row * PEG_SPACING_Y);
          (acc1, rs1) = init_pegs_row start_x y_pos [0..<peg_count] acc rs
      in init_pegs_rows rows acc1 rs1)"

definition init_pegs :: "game \<Rightarrow> rng \<Rightarrow> game \<times> rng" where
  "init_pegs g rs =
     (let (ps, rs1) = init_pegs_rows [0..<NUM_PEG_ROWS] [] rs in (g\<lparr>pegs := ps\<rparr>, rs1))"

text \<open>\<^verbatim>\<open>init_boxes\<close>; \<^verbatim>\<open>//\<close> is \<open>div\<close>, \<^verbatim>\<open>%\<close> is \<open>mod\<close> (both operands positive).\<close>

definition init_boxes :: "game \<Rightarrow> game" where
  "init_boxes g =
     (let width_per_box = SCREEN_WIDTH div int BOX_COUNT
      in g\<lparr>boxes :=
             map (\<lambda>i. (Rect (int i * width_per_box) (SCREEN_HEIGHT - BOX_HEIGHT)
                          width_per_box BOX_HEIGHT,
                        BOX_VALUES ! (i mod length BOX_VALUES)))
               [0..<BOX_COUNT]\<rparr>)"

definition reset_game :: "game \<Rightarrow> rng \<Rightarrow> game \<times> rng" where
  "reset_game g rs =
     init_pegs (g\<lparr>score := 0, balls_dropped := 0, balls := [], game_over_reason := []\<rparr>) rs"

text \<open>
  \<^verbatim>\<open>handle_ball_box_score\<close>: the loop over the boxes stops at the first box that
  matches (\<^verbatim>\<open>break\<close>); when none matches the score is as it was.
\<close>

fun score_boxes :: "(rect \<times> int) list \<Rightarrow> ball \<Rightarrow> int \<Rightarrow> int" where
  "score_boxes [] b s = s"
| "score_boxes ((r, v) # rest) b s =
     (if (real_of_int (rect_left r) \<le> ball_x b \<and> ball_x b \<le> real_of_int (rect_right r))
         \<and> ball_y b + ball_radius b \<ge> real_of_int (rect_top r)
      then s + v
      else score_boxes rest b s)"

definition handle_ball_box_score :: "game \<Rightarrow> ball \<Rightarrow> game" where
  "handle_ball_box_score g b = g\<lparr>score := score_boxes (boxes g) b (score g)\<rparr>"

text \<open>
  The loop over the balls of \<^verbatim>\<open>update_play\<close>: a ball that is not finalized is
  updated against the pegs, which collect the particles of every collision.
\<close>

fun update_balls :: "ball list \<Rightarrow> peg list \<Rightarrow> real \<Rightarrow> rng \<Rightarrow> py_error + (ball list \<times> peg list \<times> rng)" where
  "update_balls [] pgs box_y_top rs = Inr ([], pgs, rs)"
| "update_balls (b # bs) pgs box_y_top rs =
     (if \<not> finalized b then
        (case Ball_update b pgs box_y_top rs of
           Inl e \<Rightarrow> Inl e
         | Inr (b1, pgs1, rs1) \<Rightarrow>
             (case update_balls bs pgs1 box_y_top rs1 of
                Inl e \<Rightarrow> Inl e
              | Inr (bs2, pgs2, rs2) \<Rightarrow> Inr (b1 # bs2, pgs2, rs2)))
      else
        (case update_balls bs pgs box_y_top rs of
           Inl e \<Rightarrow> Inl e
         | Inr (bs2, pgs2, rs2) \<Rightarrow> Inr (b # bs2, pgs2, rs2)))"

text \<open>
  \<^verbatim>\<open>update_play\<close>: the pegs, then the balls, then the finalized balls are scored
  and taken out, then the test for the end of the game.
\<close>

definition update_play :: "game \<Rightarrow> rng \<Rightarrow> py_error + (game \<times> rng)" where
  "update_play g rs =
     (let pegs1 = map Peg_update (pegs g);
          box_y_top = real_of_int (SCREEN_HEIGHT - BOX_HEIGHT)
      in case update_balls (balls g) pegs1 box_y_top rs of
           Inl e \<Rightarrow> Inl e
         | Inr (balls1, pegs2, rs1) \<Rightarrow>
             (let g1 = g\<lparr>pegs := pegs2, balls := balls1\<rparr>;
                  finalized_balls = filter finalized (balls g1);
                  g2 = foldl handle_ball_box_score g1 finalized_balls;
                  g3 = g2\<lparr>balls := filter (\<lambda>b. \<not> finalized b) (balls g2)\<rparr>
              in if balls_dropped g3 = balls_allowed g3 \<and> length (balls g3) = 0 then
                   Inr ((let g4 = g3\<lparr>game_over_reason := ''All Balls Used''\<rparr>;
                             g5 = (if score g4 > best_score g4
                                   then g4\<lparr>best_score := score g4\<rparr> else g4)
                         in g5\<lparr>state := STATE_GAMEOVER\<rparr>), rs1)
                 else Inr (g3, rs1)))"

text \<open>
  The ball drop of \<^verbatim>\<open>handle_play_events\<close> (left mouse button at \<open>mx\<close>, not on the
  pause button): nothing happens once the budget of balls is used.
\<close>

definition drop_ball :: "game \<Rightarrow> int \<Rightarrow> rng \<Rightarrow> game \<times> rng" where
  "drop_ball g mx rs =
     (if balls_dropped g < balls_allowed g then
        (let spawn_y = 30;
             (color, rs1) = random_choice [WHITE, YELLOW, BLUE, CYAN, MAGENTA] rs;
             b = Ball (real_of_int mx) spawn_y (real_of_int BALL_RADIUS) color;
             (vx0, rs2) = random_uniform (- 2) 2 rs1;
             b1 = b\<lparr>ball_vx := vx0\<rparr>
         in (g\<lparr>balls := balls g @ [b1], balls_dropped := balls_dropped g + 1\<rparr>, rs2))
      else (g, rs))"

text \<open>Projections of a result, and the speed of a ball.\<close>

definition result_ball :: "py_error + (ball \<times> 'a \<times> rng) \<Rightarrow> ball option" where
  "result_ball r = (case r of Inl e \<Rightarrow> None | Inr (b, x, rs) \<Rightarrow> Some b)"

definition speed_of :: "ball \<Rightarrow> real" where
  "speed_of b = sqrt (ball_vx b * ball_vx b + ball_vy b * ball_vy b)"

subsection \<open>Notions used in the statements\<close>

text \<open>
  The quantities that \<^verbatim>\<open>handle_peg_collision\<close> computes on its way, named so that
  the theorems can speak of them: the distance of the centres, the test for an overlap,
  and the collision normal with its fallback for coincident centres.
\<close>

definition center_distance :: "ball \<Rightarrow> peg \<Rightarrow> real" where
  "center_distance b pg =
     sqrt ((ball_x b - peg_x pg) * (ball_x b - peg_x pg)
           + (ball_y b - peg_y pg) * (ball_y b - peg_y pg))"

definition overlapping :: "ball \<Rightarrow> peg \<Rightarrow> bool" where
  "overlapping b pg = (center_distance b pg < ball_radius b + peg_radius pg)"

definition collision_normal :: "ball \<Rightarrow> peg \<Rightarrow> real \<times> real" where
  "collision_normal b pg =
     (if center_distance b pg = 0 then (1, 0)
      else ((ball_x b - peg_x pg) / center_distance b pg,
            (ball_y b - peg_y pg) / center_distance b pg))"

definition velocity :: "ball \<Rightarrow> real \<times> real" where
  "velocity b = (ball_vx b, ball_vy b)"

definition result_velocity :: "py_error + (ball \<times> 'a \<times> rng) \<Rightarrow> (real \<times> real) option" where
  "result_velocity r = map_option velocity (result_ball r)"

definition dot :: "real \<times> real \<Rightarrow> real \<times> real \<Rightarrow> real" where
  "dot v w = fst v * fst w + snd v * snd w"

definition scale :: "real \<Rightarrow> real \<times> real \<Rightarrow> real \<times> real" where
  "scale c v = (c * fst v, c * snd v)"

definition minus_vec :: "real \<times> real \<Rightarrow> real \<times> real \<Rightarrow> real \<times> real" where
  "minus_vec v w = (fst v - fst w, snd v - snd w)"

definition plus_vec :: "real \<times> real \<Rightarrow> real \<times> real \<Rightarrow> real \<times> real" where
  "plus_vec v w = (fst v + fst w, snd v + snd w)"

text \<open>The part of a velocity along a unit normal, and the part across it.\<close>

definition normal_part :: "real \<times> real \<Rightarrow> real \<times> real \<Rightarrow> real \<times> real" where
  "normal_part v n = scale (dot v n) n"

definition tangential_part :: "real \<times> real \<Rightarrow> real \<times> real \<Rightarrow> real \<times> real" where
  "tangential_part v n = minus_vec v (normal_part v n)"

text \<open>
  The bounce as the specification words it: first the mirror image
  \<open>v - 2 (v \<cdot> n) n\<close> of the velocity, then the reflected (normal) component of that
  image scaled by the damping factor, the tangential component kept.
\<close>

definition spec_reflect :: "real \<times> real \<Rightarrow> real \<times> real \<Rightarrow> real \<times> real" where
  "spec_reflect v n = minus_vec v (scale (2 * dot v n) n)"

definition spec_bounce :: "real \<times> real \<Rightarrow> real \<times> real \<Rightarrow> real \<times> real" where
  "spec_bounce v n =
     plus_vec (tangential_part (spec_reflect v n) n)
              (scale COLLISION_DAMPING (normal_part (spec_reflect v n) n))"

text \<open>The position and radius of a peg: all of it but the colour and the particles.\<close>

definition peg_geometry :: "peg \<Rightarrow> real \<times> real \<times> real" where
  "peg_geometry pg = (peg_x pg, peg_y pg, peg_radius pg)"

text \<open>
  The test of \<^verbatim>\<open>handle_ball_box_score\<close> for one box, and the value that the first
  matching box of a list gives a ball (nothing when no box matches).
\<close>

definition box_matches :: "ball \<Rightarrow> rect \<times> int \<Rightarrow> bool" where
  "box_matches b bx =
     (real_of_int (rect_left (fst bx)) \<le> ball_x b
      \<and> ball_x b \<le> real_of_int (rect_right (fst bx))
      \<and> real_of_int (rect_top (fst bx)) \<le> ball_y b + ball_radius b)"

definition box_value :: "(rect \<times> int) list \<Rightarrow> ball \<Rightarrow> int" where
  "box_value bxs b = (case find (box_matches b) bxs of None \<Rightarrow> 0 | Some bx \<Rightarrow> snd bx)"

text \<open>
  The layout of one row of pegs as the specification words it: row \<open>r\<close> has \<open>r + 3\<close>
  pegs at equal spacing, centred on the width of the playfield, all at the height of
  the row. The entries are the \<open>x\<close>, the \<open>y\<close> and the radius of each peg.
\<close>

definition spec_peg_row :: "nat \<Rightarrow> (real \<times> real \<times> real) list" where
  "spec_peg_row r =
     map (\<lambda>i. (real_of_int SCREEN_WIDTH / 2
                  + (real i - real (r + 2) / 2) * real_of_int PEG_SPACING_X,
                real_of_int PEG_OFFSET_TOP + real r * real_of_int PEG_SPACING_Y,
                real_of_int PEG_RADIUS))
       [0..<r + 3]"

subsection \<open>Concrete inputs\<close>

text \<open>
  A ball of radius 12 at \<open>(10, 0)\<close> and a peg of radius 12 at the origin: the centres
  are 10 apart, so they overlap by 14 and the normal is \<open>(1, 0)\<close>. The first ball moves
  against the peg and along it, the second only along it.
\<close>

definition example_rng :: rng where
  "example_rng = sconst 0"

definition example_peg :: peg where
  "example_peg = Peg 0 0 12 RED"

definition example_ball :: ball where
  "example_ball = (Ball 10 0 12 WHITE)\<lparr>ball_vx := - 10, ball_vy := 5\<rparr>"

definition example_ball_tangential :: ball where
  "example_ball_tangential = (Ball 10 0 12 WHITE)\<lparr>ball_vx := 0, ball_vy := 5\<rparr>"

text \<open>A particle with two steps to live, alone in the list of a peg.\<close>

definition example_particle :: particle where
  "example_particle = Particle 0 0 1 0 WHITE 2"

definition example_peg_with_particle :: peg where
  "example_peg_with_particle = example_peg\<lparr>particles := [example_particle]\<rparr>"

text \<open>
  A game in play with the boxes of \<^verbatim>\<open>init_boxes\<close> and no pegs, and two finalized
  balls of radius 12 at the height of the boxes: one over the middle box, one to the
  left of every box.
\<close>

definition example_game :: game where
  "example_game =
     init_boxes \<lparr>state = STATE_PLAY, score = 0, balls_allowed = 25, balls_dropped = 1,
                 best_score = 0, pegs = [], balls = [], boxes = [], game_over_reason = []\<rparr>"

definition example_ball_landed :: ball where
  "example_ball_landed = (Ball 400 510 12 WHITE)\<lparr>finalized := True\<rparr>"

definition example_ball_outside :: ball where
  "example_ball_outside = (Ball (- 20) 510 12 WHITE)\<lparr>finalized := True\<rparr>"

definition example_game_landed :: game where
  "example_game_landed = example_game\<lparr>balls := [example_ball_landed]\<rparr>"

text \<open>
  A game in play with the pegs of \<^verbatim>\<open>init_pegs\<close> and one ball of radius
  \<open>BALL_RADIUS\<close> next to the left wall, moving towards it.
\<close>

definition example_game_pegs :: game where
  "example_game_pegs = (fst (init_pegs example_game example_rng))\<lparr>balls := [example_ball]\<rparr>"

section \<open>Properties\<close>

subsection \<open>What one run of the collision resolution returns\<close>

lemma math_sqrt_sum_squares:
  "math_sqrt (a * a + c * c) = Inr (sqrt (a * a + c * c))"
  by (simp add: math_sqrt_def not_less)

lemma peg_geometry_particles:
  "peg_geometry (pg\<lparr>particles := ps\<rparr>) = peg_geometry pg"
  by (simp add: peg_geometry_def)

lemma spawn_particles_geometry:
  "peg_geometry (fst (spawn_particles n b color pg rs)) = peg_geometry pg"
  by (induction n arbitrary: pg rs)
     (simp_all add: split_def Let_def peg_geometry_particles)

lemma handle_peg_collision_miss:
  assumes "\<not> overlapping b pg"
  shows "handle_peg_collision b pg rs = Inr (b, pg, rs)"
  using assms
  by (simp add: handle_peg_collision_def overlapping_def center_distance_def
      math_sqrt_sum_squares Let_def)

lemma handle_peg_collision_hit:
  assumes "overlapping b pg"
  shows "\<exists>pg' rs'. handle_peg_collision b pg rs =
           Inr (b\<lparr>ball_x := ball_x b + fst (collision_normal b pg)
                              * (ball_radius b + peg_radius pg - center_distance b pg),
                  ball_y := ball_y b + snd (collision_normal b pg)
                              * (ball_radius b + peg_radius pg - center_distance b pg),
                  ball_vx := ball_vx b - 2 * dot (velocity b) (collision_normal b pg)
                              * fst (collision_normal b pg) * COLLISION_DAMPING,
                  ball_vy := ball_vy b - 2 * dot (velocity b) (collision_normal b pg)
                              * snd (collision_normal b pg) * COLLISION_DAMPING\<rparr>, pg', rs')
         \<and> peg_geometry pg' = peg_geometry pg"
proof -
  have sp: "\<exists>pg' rs'. spawn_particles n b1 c pg rs1 = (pg', rs') \<and> peg_geometry pg' = peg_geometry pg"
    for n b1 c rs1
    by (metis prod.collapse spawn_particles_geometry)
  show ?thesis
  proof (cases "center_distance b pg = 0")
    case True
    with assms show ?thesis
      using sp
      by (simp add: handle_peg_collision_def overlapping_def center_distance_def
        math_sqrt_sum_squares Let_def collision_normal_def dot_def velocity_def split_def)
  next
    case False
    with assms show ?thesis
      using sp
      by (auto simp add: handle_peg_collision_def overlapping_def center_distance_def
        math_sqrt_sum_squares Let_def collision_normal_def dot_def velocity_def split_def
        py_div_def)
  qed
qed


lemma center_distance_nonneg: "0 \<le> center_distance b pg"
  by (simp add: center_distance_def)

lemma center_distance_square:
  "center_distance b pg * center_distance b pg =
     (ball_x b - peg_x pg) * (ball_x b - peg_x pg) + (ball_y b - peg_y pg) * (ball_y b - peg_y pg)"
  by (simp add: center_distance_def)

lemma center_distance_zero:
  "center_distance b pg = 0 \<longleftrightarrow> ball_x b = peg_x pg \<and> ball_y b = peg_y pg"
  by (simp add: center_distance_def)

lemma collision_normal_unit:
  "dot (collision_normal b pg) (collision_normal b pg) = 1"
proof (cases "center_distance b pg = 0")
  case True
  then show ?thesis by (simp add: collision_normal_def dot_def)
next
  case False
  have "dot (collision_normal b pg) (collision_normal b pg) =
        ((ball_x b - peg_x pg) * (ball_x b - peg_x pg) + (ball_y b - peg_y pg) * (ball_y b - peg_y pg))
         / (center_distance b pg * center_distance b pg)"
    using False by (simp add: collision_normal_def dot_def add_divide_distrib)
  also have "\<dots> = 1"
    using False by (simp add: center_distance_square [symmetric])
  finally show ?thesis .
qed

lemma pushed_out_distance:
  fixes dx dy d m :: real
  assumes d: "d * d = dx * dx + dy * dy" and pos: "0 < d" and m: "0 \<le> m"
  shows "sqrt ((dx + dx / d * (m - d)) * (dx + dx / d * (m - d))
               + (dy + dy / d * (m - d)) * (dy + dy / d * (m - d))) = m"
proof -
  have x: "dx + dx / d * (m - d) = dx * (m / d)"
    using pos by (simp add: field_simps)
  have y: "dy + dy / d * (m - d) = dy * (m / d)"
    using pos by (simp add: field_simps)
  have "(dx * (m / d)) * (dx * (m / d)) + (dy * (m / d)) * (dy * (m / d))
        = (dx * dx + dy * dy) * ((m / d) * (m / d))"
    by (simp add: algebra_simps add_divide_distrib)
  also have "\<dots> = (d * d) * ((m / d) * (m / d))"
    by (simp add: d)
  also have "\<dots> = m * m"
    using pos by simp
  finally have e: "(dx * (m / d)) * (dx * (m / d)) + (dy * (m / d)) * (dy * (m / d)) = m * m" .
  have "(dx + dx / d * (m - d)) * (dx + dx / d * (m - d))
               + (dy + dy / d * (m - d)) * (dy + dy / d * (m - d)) = m\<^sup>2"
    unfolding x y power2_eq_square by (rule e)
  then show ?thesis
    using m by (simp add: real_sqrt_unique)
qed

lemma bounce_normal_component:
  fixes vx vy nx ny c :: real
  assumes "nx * nx + ny * ny = 1"
  shows "(vx - 2 * (vx * nx + vy * ny) * nx * c) * nx
         + (vy - 2 * (vx * nx + vy * ny) * ny * c) * ny = (1 - 2 * c) * (vx * nx + vy * ny)"
proof -
  have "(vx - 2 * (vx * nx + vy * ny) * nx * c) * nx
         + (vy - 2 * (vx * nx + vy * ny) * ny * c) * ny
        = (vx * nx + vy * ny) - 2 * c * (vx * nx + vy * ny) * (nx * nx + ny * ny)"
    by (simp add: algebra_simps)
  also have "\<dots> = (1 - 2 * c) * (vx * nx + vy * ny)"
    by (simp add: assms algebra_simps)
  finally show ?thesis .
qed

lemma bounce_speed_square:
  fixes vx vy nx ny c :: real
  assumes "nx * nx + ny * ny = 1"
  shows "(vx - 2 * (vx * nx + vy * ny) * nx * c) * (vx - 2 * (vx * nx + vy * ny) * nx * c)
         + (vy - 2 * (vx * nx + vy * ny) * ny * c) * (vy - 2 * (vx * nx + vy * ny) * ny * c)
         = vx * vx + vy * vy - 4 * c * (1 - c) * ((vx * nx + vy * ny) * (vx * nx + vy * ny))"
proof -
  define s where "s = vx * nx + vy * ny"
  have "(vx - 2 * s * nx * c) * (vx - 2 * s * nx * c) + (vy - 2 * s * ny * c) * (vy - 2 * s * ny * c)
        = vx * vx + vy * vy - 4 * c * s * (vx * nx + vy * ny)
          + 4 * c * c * s * s * (nx * nx + ny * ny)"
    by (simp add: algebra_simps)
  also have "\<dots> = vx * vx + vy * vy - 4 * c * s * s + 4 * c * c * s * s"
    by (simp add: assms s_def)
  also have "\<dots> = vx * vx + vy * vy - 4 * c * (1 - c) * (s * s)"
    by (simp add: algebra_simps)
  finally show ?thesis by (simp add: s_def)
qed


lemma sqrt_100: "sqrt 100 = (10::real)"
  by (rule real_sqrt_unique) simp_all

lemma example_distance: "center_distance example_ball example_peg = 10"
  by (simp add: center_distance_def example_ball_def example_peg_def Ball_def Peg_def sqrt_100)

lemma example_normal: "collision_normal example_ball example_peg = (1, 0)"
  by (simp add: collision_normal_def example_distance)
     (simp add: example_ball_def example_peg_def Ball_def Peg_def)

lemma example_overlapping: "overlapping example_ball example_peg"
  by (simp add: overlapping_def example_distance)
     (simp add: example_ball_def example_peg_def Ball_def Peg_def)

lemma handle_peg_collision_total: "handle_peg_collision b pg rs \<noteq> Inl e"
proof (cases "overlapping b pg")
  case True
  from handle_peg_collision_hit [OF True, of rs] show ?thesis by auto
next
  case False
  then show ?thesis by (simp add: handle_peg_collision_miss)
qed

subsection \<open>C3: an overlapping ball is pushed out to tangency\<close>

text \<open>
  C3. \<^verbatim>\<open>handle_peg_collision\<close> raises no error on any input (the division by the
  distance of the centres is never reached with a zero distance). When the ball and the
  peg overlap (centre distance strictly below the sum of the radii), it moves the ball
  along the collision normal by exactly the overlap: along the normalised
  centre-to-centre direction when the centres differ, along the fixed normal \<open>(1, 0)\<close>
  when they coincide. The centre distance after the resolution is
  \<open>ball.radius + peg.radius\<close>.
\<close>

theorem peg_collision_tangent:
  "(\<forall>e. handle_peg_collision b pg rs \<noteq> Inl e) \<and>
   (overlapping b pg \<longrightarrow>
      (\<exists>b' pg' rs'. handle_peg_collision b pg rs = Inr (b', pg', rs')
         \<and> ball_x b' = ball_x b + fst (collision_normal b pg)
                          * (ball_radius b + peg_radius pg - center_distance b pg)
         \<and> ball_y b' = ball_y b + snd (collision_normal b pg)
                          * (ball_radius b + peg_radius pg - center_distance b pg)
         \<and> (center_distance b pg = 0 \<longrightarrow>
               ball_x b' = ball_x b + (ball_radius b + peg_radius pg) \<and> ball_y b' = ball_y b)
         \<and> (center_distance b pg \<noteq> 0 \<longrightarrow>
               collision_normal b pg = ((ball_x b - peg_x pg) / center_distance b pg,
                                        (ball_y b - peg_y pg) / center_distance b pg))
         \<and> center_distance b' pg' = ball_radius b + peg_radius pg
         \<and> ball_radius b' = ball_radius b \<and> peg_geometry pg' = peg_geometry pg))"
proof (intro conjI allI impI)
  fix e show "handle_peg_collision b pg rs \<noteq> Inl e"
    by (rule handle_peg_collision_total)
next
  assume ov: "overlapping b pg"
  define d where "d = center_distance b pg"
  define m where "m = ball_radius b + peg_radius pg"
  define nx where "nx = fst (collision_normal b pg)"
  define ny where "ny = snd (collision_normal b pg)"
  from handle_peg_collision_hit [OF ov, of rs]
  obtain b' pg' rs' where
    res: "handle_peg_collision b pg rs = Inr (b', pg', rs')"
    and x': "ball_x b' = ball_x b + nx * (m - d)"
    and y': "ball_y b' = ball_y b + ny * (m - d)"
    and r': "ball_radius b' = ball_radius b"
    and geo: "peg_geometry pg' = peg_geometry pg"
    unfolding d_def m_def nx_def ny_def by fastforce
  have dm: "d < m" and d0: "0 \<le> d"
    using ov by (simp_all add: overlapping_def d_def m_def center_distance_nonneg)
  have pgeq: "peg_x pg' = peg_x pg" "peg_y pg' = peg_y pg"
    using geo by (simp_all add: peg_geometry_def)
  have dist: "center_distance b' pg' = m"
  proof (cases "d = 0")
    case True
    then have "ball_x b = peg_x pg" "ball_y b = peg_y pg" "nx = 1" "ny = 0"
      by (simp_all add: d_def nx_def ny_def center_distance_zero collision_normal_def)
    then show ?thesis
      using dm True by (simp add: center_distance_def x' y' pgeq)
  next
    case False
    then have pos: "0 < d" using d0 by simp
    have n: "nx = (ball_x b - peg_x pg) / d" "ny = (ball_y b - peg_y pg) / d"
      using False by (simp_all add: nx_def ny_def d_def collision_normal_def)
    have sq: "d * d = (ball_x b - peg_x pg) * (ball_x b - peg_x pg)
                     + (ball_y b - peg_y pg) * (ball_y b - peg_y pg)"
      by (simp add: d_def center_distance_square)
    have m0: "0 \<le> m" using dm d0 by simp
    have ex: "ball_x b' - peg_x pg' = (ball_x b - peg_x pg) + (ball_x b - peg_x pg) / d * (m - d)"
      by (simp add: x' n pgeq)
    have ey: "ball_y b' - peg_y pg' = (ball_y b - peg_y pg) + (ball_y b - peg_y pg) / d * (m - d)"
      by (simp add: y' n pgeq)
    show ?thesis
      unfolding center_distance_def ex ey
      by (rule pushed_out_distance [OF sq pos m0])
  qed
  have zero: "d = 0 \<Longrightarrow> nx = 1 \<and> ny = 0"
    by (simp add: d_def nx_def ny_def collision_normal_def)
  show "\<exists>b' pg' rs'. handle_peg_collision b pg rs = Inr (b', pg', rs')
         \<and> ball_x b' = ball_x b + fst (collision_normal b pg)
                          * (ball_radius b + peg_radius pg - center_distance b pg)
         \<and> ball_y b' = ball_y b + snd (collision_normal b pg)
                          * (ball_radius b + peg_radius pg - center_distance b pg)
         \<and> (center_distance b pg = 0 \<longrightarrow>
               ball_x b' = ball_x b + (ball_radius b + peg_radius pg) \<and> ball_y b' = ball_y b)
         \<and> (center_distance b pg \<noteq> 0 \<longrightarrow>
               collision_normal b pg = ((ball_x b - peg_x pg) / center_distance b pg,
                                        (ball_y b - peg_y pg) / center_distance b pg))
         \<and> center_distance b' pg' = ball_radius b + peg_radius pg
         \<and> ball_radius b' = ball_radius b \<and> peg_geometry pg' = peg_geometry pg"
    apply (rule exI [of _ b'], rule exI [of _ pg'], rule exI [of _ rs'])
    using res x' y' dist r' geo zero
    by (simp add: d_def m_def nx_def ny_def collision_normal_def)
qed


theorem peg_collision_tangent_witness:
  "overlapping example_ball example_peg \<and>
   (\<exists>b' pg' rs'. handle_peg_collision example_ball example_peg example_rng = Inr (b', pg', rs')
      \<and> ball_x b' = 24 \<and> ball_y b' = 0 \<and> center_distance b' pg' = 24)"
proof -
  have r: "ball_radius example_ball + peg_radius example_peg = 24"
     "ball_x example_ball = 10" "ball_y example_ball = 0"
    by (simp_all add: example_ball_def example_peg_def Ball_def Peg_def)
  from peg_collision_tangent [of example_ball example_peg example_rng] example_overlapping
  show ?thesis
    by (simp add: example_normal example_distance r) blast
qed

lemma handle_peg_collision_velocity:
  assumes "overlapping b pg"
  shows "\<exists>b' pg' rs'. handle_peg_collision b pg rs = Inr (b', pg', rs')
     \<and> ball_vx b' = ball_vx b - 2 * dot (velocity b) (collision_normal b pg)
                              * fst (collision_normal b pg) * COLLISION_DAMPING
     \<and> ball_vy b' = ball_vy b - 2 * dot (velocity b) (collision_normal b pg)
                              * snd (collision_normal b pg) * COLLISION_DAMPING"
  using handle_peg_collision_hit [OF assms, of rs] by fastforce

subsection \<open>C1: the velocity after a resolved collision\<close>

text \<open>
  C1, as amended. When the ball and the peg overlap, the new velocity is
  \<open>v' = v - COLLISION_DAMPING * (2 (v \<cdot> n) n)\<close> for the unit collision normal \<open>n\<close>:
  the damping factor, which is below 1, multiplies the whole correction term of the
  reflection formula. The tangential component of the velocity is unchanged, and the
  normal component goes from \<open>v \<cdot> n\<close> to \<open>(1 - 2 * COLLISION_DAMPING) (v \<cdot> n)\<close>, that
  is \<open>- 0.8 (v \<cdot> n)\<close>.
\<close>

theorem peg_collision_velocity:
  assumes "overlapping b pg"
  shows "\<exists>b' pg' rs'. handle_peg_collision b pg rs = Inr (b', pg', rs')
     \<and> velocity b' = minus_vec (velocity b)
           (scale (COLLISION_DAMPING * (2 * dot (velocity b) (collision_normal b pg)))
                  (collision_normal b pg))
     \<and> dot (collision_normal b pg) (collision_normal b pg) = 1
     \<and> tangential_part (velocity b') (collision_normal b pg)
         = tangential_part (velocity b) (collision_normal b pg)
     \<and> dot (velocity b') (collision_normal b pg)
         = (1 - 2 * COLLISION_DAMPING) * dot (velocity b) (collision_normal b pg)
     \<and> COLLISION_DAMPING < 1"
proof -
  define nx where "nx = fst (collision_normal b pg)"
  define ny where "ny = snd (collision_normal b pg)"
  define s where "s = dot (velocity b) (collision_normal b pg)"
  from handle_peg_collision_velocity [OF assms, of rs]
  obtain b' pg' rs' where
    res: "handle_peg_collision b pg rs = Inr (b', pg', rs')"
    and vx': "ball_vx b' = ball_vx b - 2 * s * nx * COLLISION_DAMPING"
    and vy': "ball_vy b' = ball_vy b - 2 * s * ny * COLLISION_DAMPING"
    unfolding nx_def ny_def s_def by blast
  have n: "collision_normal b pg = (nx, ny)"
    by (simp add: nx_def ny_def)
  have unit: "nx * nx + ny * ny = 1"
    using collision_normal_unit [of b pg] by (simp add: n dot_def)
  have s: "s = ball_vx b * nx + ball_vy b * ny"
    by (simp add: s_def n dot_def velocity_def)
  have v: "velocity b' = minus_vec (velocity b) (scale (COLLISION_DAMPING * (2 * s)) (nx, ny))"
    by (simp add: velocity_def minus_vec_def scale_def vx' vy')
  have nc: "dot (velocity b') (nx, ny) = (1 - 2 * COLLISION_DAMPING) * s"
    using bounce_normal_component [OF unit, of "ball_vx b" "ball_vy b" COLLISION_DAMPING]
    by (simp add: dot_def velocity_def vx' vy' s)
  have ds: "dot (velocity b) (nx, ny) = s"
    by (simp add: s_def n)
  have tp: "tangential_part (velocity b') (nx, ny) = tangential_part (velocity b) (nx, ny)"
  proof -
    have "tangential_part (velocity b') (nx, ny)
          = minus_vec (velocity b') (scale ((1 - 2 * COLLISION_DAMPING) * s) (nx, ny))"
      by (simp only: tangential_part_def normal_part_def nc)
    also have "\<dots> = minus_vec (velocity b) (scale s (nx, ny))"
      by (simp add: minus_vec_def scale_def velocity_def vx' vy' algebra_simps)
    also have "\<dots> = tangential_part (velocity b) (nx, ny)"
      by (simp only: tangential_part_def normal_part_def ds)
    finally show ?thesis .
  qed
  show ?thesis
    apply (rule exI [of _ b'], rule exI [of _ pg'], rule exI [of _ rs'])
    using res v nc tp collision_normal_unit [of b pg]
    by (simp add: n s_def COLLISION_DAMPING_def)
qed


lemma result_velocity_Inr: "result_velocity (Inr (b, x, rs)) = Some (velocity b)"
  by (simp add: result_velocity_def result_ball_def)

lemma example_velocity: "velocity example_ball = (- 10, 5)"
  by (simp add: velocity_def example_ball_def Ball_def)

lemma example_result_velocity:
  "result_velocity (handle_peg_collision example_ball example_peg example_rng) = Some (8, 5)"
proof -
  from handle_peg_collision_velocity [OF example_overlapping, of example_rng]
  obtain b' pg' rs' where
    res: "handle_peg_collision example_ball example_peg example_rng = Inr (b', pg', rs')"
    and vx': "ball_vx b' = ball_vx example_ball
        - 2 * dot (velocity example_ball) (collision_normal example_ball example_peg)
            * fst (collision_normal example_ball example_peg) * COLLISION_DAMPING"
    and vy': "ball_vy b' = ball_vy example_ball
        - 2 * dot (velocity example_ball) (collision_normal example_ball example_peg)
            * snd (collision_normal example_ball example_peg) * COLLISION_DAMPING"
    by blast
  have "velocity b' = (8, 5)"
    using example_velocity
    by (simp add: velocity_def vx' vy' example_normal dot_def COLLISION_DAMPING_def)
  then show ?thesis by (simp add: res result_velocity_Inr)
qed

theorem peg_collision_velocity_witness:
  "overlapping example_ball example_peg \<and>
   (\<exists>b' pg' rs'. handle_peg_collision example_ball example_peg example_rng = Inr (b', pg', rs')
      \<and> velocity b' = (8, 5)
      \<and> tangential_part (velocity b') (1, 0) = (0, 5)
      \<and> dot (velocity b') (1, 0) = 8)"
proof -
  have t: "tangential_part (- 10, 5) (1, 0) = (0, 5)"
    by (simp add: tangential_part_def normal_part_def minus_vec_def scale_def dot_def)
  have d: "dot (- 10, 5) (1, 0) = - 10"
    by (simp add: dot_def)
  have m: "minus_vec (- 10, 5) (scale (COLLISION_DAMPING * (2 * - 10)) (1, 0)) = (8, 5)"
    by (simp add: minus_vec_def scale_def COLLISION_DAMPING_def)
  from peg_collision_velocity [OF example_overlapping, of example_rng]
  obtain b' pg' rs' where
    "handle_peg_collision example_ball example_peg example_rng = Inr (b', pg', rs')"
    "velocity b' = (8, 5)"
    "tangential_part (velocity b') (1, 0) = (0, 5)"
    "dot (velocity b') (1, 0) = (1 - 2 * COLLISION_DAMPING) * - 10"
    unfolding example_normal example_velocity d m t by blast
  then show ?thesis
    using example_overlapping by (simp add: COLLISION_DAMPING_def)
qed

text \<open>
  The claim as worded (mirror the velocity, then scale the reflected component by the
  damping factor) gives a normal component of \<open>- 0.9 (v \<cdot> n)\<close>. For the velocity
  \<open>(- 10, 5)\<close> and the normal \<open>(1, 0)\<close> that is \<open>(9, 5)\<close>; the code returns \<open>(8, 5)\<close>.
\<close>

theorem peg_collision_velocity_counterexample:
  "overlapping example_ball example_peg
   \<and> result_velocity (handle_peg_collision example_ball example_peg example_rng) = Some (8, 5)
   \<and> spec_bounce (velocity example_ball) (collision_normal example_ball example_peg) = (9, 5)
   \<and> result_velocity (handle_peg_collision example_ball example_peg example_rng)
       \<noteq> Some (spec_bounce (velocity example_ball) (collision_normal example_ball example_peg))"
proof -
  have sb: "spec_bounce (velocity example_ball) (collision_normal example_ball example_peg) = (9, 5)"
    by (simp add: example_velocity example_normal spec_bounce_def spec_reflect_def
        tangential_part_def normal_part_def minus_vec_def plus_vec_def scale_def dot_def
        COLLISION_DAMPING_def)
  show ?thesis
    by (simp add: example_overlapping example_result_velocity sb)
qed


subsection \<open>C5: a bounce does not gain speed along the normal\<close>

lemma tangential_distance: "center_distance example_ball_tangential example_peg = 10"
  by (simp add: center_distance_def example_ball_tangential_def example_peg_def Ball_def
      Peg_def sqrt_100)

lemma tangential_normal: "collision_normal example_ball_tangential example_peg = (1, 0)"
  by (simp add: collision_normal_def tangential_distance)
     (simp add: example_ball_tangential_def example_peg_def Ball_def Peg_def)

lemma tangential_overlapping: "overlapping example_ball_tangential example_peg"
  by (simp add: overlapping_def tangential_distance)
     (simp add: example_ball_tangential_def example_peg_def Ball_def Peg_def)

lemma tangential_velocity: "velocity example_ball_tangential = (0, 5)"
  by (simp add: velocity_def example_ball_tangential_def Ball_def)

lemma handle_peg_collision_normal_component:
  assumes "overlapping b pg"
  shows "\<exists>b' pg' rs'. handle_peg_collision b pg rs = Inr (b', pg', rs')
     \<and> dot (velocity b') (collision_normal b pg)
         = (1 - 2 * COLLISION_DAMPING) * dot (velocity b) (collision_normal b pg)"
proof -
  define nx where "nx = fst (collision_normal b pg)"
  define ny where "ny = snd (collision_normal b pg)"
  have n: "collision_normal b pg = (nx, ny)"
    by (simp add: nx_def ny_def)
  have unit: "nx * nx + ny * ny = 1"
    using collision_normal_unit [of b pg] by (simp add: n dot_def)
  from handle_peg_collision_velocity [OF assms, of rs]
  obtain b' pg' rs' where
    res: "handle_peg_collision b pg rs = Inr (b', pg', rs')"
    and vx': "ball_vx b' = ball_vx b - 2 * (ball_vx b * nx + ball_vy b * ny) * nx * COLLISION_DAMPING"
    and vy': "ball_vy b' = ball_vy b - 2 * (ball_vx b * nx + ball_vy b * ny) * ny * COLLISION_DAMPING"
    unfolding n dot_def velocity_def by auto
  have "dot (velocity b') (nx, ny) = (1 - 2 * COLLISION_DAMPING) * dot (velocity b) (nx, ny)"
    using bounce_normal_component [OF unit, of "ball_vx b" "ball_vy b" COLLISION_DAMPING]
    by (simp add: dot_def velocity_def vx' vy')
  with res show ?thesis unfolding n by blast
qed

text \<open>
  C5, as amended. When a collision is resolved, the size of the velocity component along
  the collision normal after the resolution is 0.8 times its size before
  (\<open>0.8 = 2 * COLLISION_DAMPING - 1\<close>): it is never larger, and it is strictly smaller
  whenever the incoming component along the normal is not zero. When that component is
  zero, it is zero afterwards too.
\<close>

theorem peg_collision_normal_speed:
  assumes "overlapping b pg"
  shows "\<exists>b' pg' rs'. handle_peg_collision b pg rs = Inr (b', pg', rs')
     \<and> \<bar>dot (velocity b') (collision_normal b pg)\<bar>
         = 0.8 * \<bar>dot (velocity b) (collision_normal b pg)\<bar>
     \<and> \<bar>dot (velocity b') (collision_normal b pg)\<bar> \<le> \<bar>dot (velocity b) (collision_normal b pg)\<bar>
     \<and> (dot (velocity b) (collision_normal b pg) \<noteq> 0 \<longrightarrow>
          \<bar>dot (velocity b') (collision_normal b pg)\<bar> < \<bar>dot (velocity b) (collision_normal b pg)\<bar>)"
proof -
  from handle_peg_collision_normal_component [OF assms, of rs]
  obtain b' pg' rs' where
    res: "handle_peg_collision b pg rs = Inr (b', pg', rs')"
    and nc: "dot (velocity b') (collision_normal b pg)
         = (1 - 2 * COLLISION_DAMPING) * dot (velocity b) (collision_normal b pg)"
    by blast
  have "\<bar>dot (velocity b') (collision_normal b pg)\<bar>
        = 0.8 * \<bar>dot (velocity b) (collision_normal b pg)\<bar>"
    by (simp add: nc COLLISION_DAMPING_def abs_mult)
  with res show ?thesis by force
qed

theorem peg_collision_normal_speed_witness:
  "overlapping example_ball example_peg \<and>
   dot (velocity example_ball) (collision_normal example_ball example_peg) = - 10 \<and>
   (\<exists>b' pg' rs'. handle_peg_collision example_ball example_peg example_rng = Inr (b', pg', rs')
      \<and> \<bar>dot (velocity b') (1, 0)\<bar> = 8 \<and> \<bar>dot (velocity b') (1, 0)\<bar> < 10)"
proof -
  have d: "dot (velocity example_ball) (collision_normal example_ball example_peg) = - 10"
    by (simp add: example_velocity example_normal dot_def)
  from peg_collision_normal_speed [OF example_overlapping, of example_rng]
  obtain b' pg' rs' where
    "handle_peg_collision example_ball example_peg example_rng = Inr (b', pg', rs')"
    "\<bar>dot (velocity b') (1, 0)\<bar> = 0.8 * \<bar>- 10 :: real\<bar>"
    unfolding d unfolding example_normal by blast
  then show ?thesis
    using example_overlapping d by auto
qed

text \<open>
  A ball that overlaps the peg and moves along it (no velocity component along the
  normal) leaves the resolution with the same velocity: the component along the normal is
  zero before and after, so it is not strictly smaller.
\<close>

theorem peg_collision_normal_speed_counterexample:
  "overlapping example_ball_tangential example_peg
   \<and> result_velocity (handle_peg_collision example_ball_tangential example_peg example_rng)
       = Some (0, 5)
   \<and> \<not> (\<bar>dot (0, 5) (collision_normal example_ball_tangential example_peg)\<bar>
          < \<bar>dot (velocity example_ball_tangential)
                 (collision_normal example_ball_tangential example_peg)\<bar>)"
proof -
  from handle_peg_collision_velocity [OF tangential_overlapping, of example_rng]
  obtain b' pg' rs' where
    res: "handle_peg_collision example_ball_tangential example_peg example_rng = Inr (b', pg', rs')"
    and vx': "ball_vx b' = ball_vx example_ball_tangential
        - 2 * dot (velocity example_ball_tangential)
                  (collision_normal example_ball_tangential example_peg)
            * fst (collision_normal example_ball_tangential example_peg) * COLLISION_DAMPING"
    and vy': "ball_vy b' = ball_vy example_ball_tangential
        - 2 * dot (velocity example_ball_tangential)
                  (collision_normal example_ball_tangential example_peg)
            * snd (collision_normal example_ball_tangential example_peg) * COLLISION_DAMPING"
    by blast
  have "velocity b' = (0, 5)"
    using tangential_velocity
    by (simp add: velocity_def vx' vy' tangential_normal dot_def)
  then have "result_velocity (handle_peg_collision example_ball_tangential example_peg example_rng)
       = Some (0, 5)"
    by (simp add: res result_velocity_Inr)
  then show ?thesis
    by (simp add: tangential_overlapping tangential_normal tangential_velocity dot_def)
qed


subsection \<open>C8: the lifetime of a particle\<close>

lemma lifetime_Particle_update_iter:
  "lifetime ((Particle_update ^^ k) p) = lifetime p - int k"
  by (induction k) (simp_all add: Particle_update_def)

lemma particles_Peg_update_iter:
  "particles ((Peg_update ^^ k) pg) =
     map (Particle_update ^^ k) (filter (\<lambda>p. k = 0 \<or> int k < lifetime p) (particles pg))"
proof (induction k)
  case 0
  show ?case by simp
next
  case (Suc k)
  have "particles ((Peg_update ^^ Suc k) pg) =
        filter (\<lambda>p. 0 < lifetime p)
          (map Particle_update (particles ((Peg_update ^^ k) pg)))"
    by (simp add: Peg_update_def)
  also have "\<dots> = filter (\<lambda>p. 0 < lifetime p)
          (map (Particle_update ^^ Suc k)
             (filter (\<lambda>p. k = 0 \<or> int k < lifetime p) (particles pg)))"
    by (simp add: Suc.IH)
  also have "\<dots> = map (Particle_update ^^ Suc k)
          (filter (\<lambda>p. 0 < lifetime ((Particle_update ^^ Suc k) p))
             (filter (\<lambda>p. k = 0 \<or> int k < lifetime p) (particles pg)))"
    by (simp only: filter_map o_def)
  also have "\<dots> = map (Particle_update ^^ Suc k)
          (filter (\<lambda>p. Suc k = 0 \<or> int (Suc k) < lifetime p) (particles pg))"
    by (simp only: lifetime_Particle_update_iter filter_filter)
       (rule arg_cong [where f = "map (Particle_update ^^ Suc k)"], rule filter_cong, auto)
  finally show ?case .
qed

text \<open>
  C8. A particle of positive lifetime \<open>L\<close> in the list of a peg is still in the list
  (updated \<open>k\<close> times, at its place between the survivors of its neighbours) after \<open>k\<close>
  runs of \<^verbatim>\<open>Peg.update\<close> for every \<open>k < L\<close>, and is not in it after \<open>L\<close> runs or
  more: the run in which its lifetime reaches zero removes it.
\<close>

theorem particle_expiry:
  assumes "0 < lifetime p" and "particles pg = before @ p # after"
  shows "particles ((Peg_update ^^ k) pg) =
           map (Particle_update ^^ k) (filter (\<lambda>q. k = 0 \<or> int k < lifetime q) before)
           @ (if int k < lifetime p then [(Particle_update ^^ k) p] else [])
           @ map (Particle_update ^^ k) (filter (\<lambda>q. k = 0 \<or> int k < lifetime q) after)"
  using assms(1) by (auto simp add: particles_Peg_update_iter assms(2))

theorem particle_expiry_witness:
  "0 < lifetime example_particle
   \<and> particles example_peg_with_particle = [] @ example_particle # []
   \<and> particles ((Peg_update ^^ 1) example_peg_with_particle) = [Particle_update example_particle]
   \<and> particles ((Peg_update ^^ 2) example_peg_with_particle) = []"
proof -
  have l: "lifetime example_particle = 2"
    by (simp add: example_particle_def Particle_def)
  have pos: "0 < lifetime example_particle"
    by (simp add: l)
  have ps: "particles example_peg_with_particle = [] @ example_particle # []"
    by (simp add: example_peg_with_particle_def)
  from particle_expiry [OF pos ps, of 1] particle_expiry [OF pos ps, of 2]
  show ?thesis
    using pos ps by (simp add: l)
qed


subsection \<open>C7: scoring a finalized ball\<close>

lemma score_boxes_find:
  "score_boxes bxs b s = (case find (box_matches b) bxs of None \<Rightarrow> s | Some bx \<Rightarrow> s + snd bx)"
  by (induction bxs b s rule: score_boxes.induct) (simp_all add: box_matches_def)

lemma score_boxes_value: "score_boxes bxs b s = s + box_value bxs b"
  by (simp add: score_boxes_find box_value_def split: option.split)

lemma handle_ball_box_score_value:
  "handle_ball_box_score g b = g\<lparr>score := score g + box_value (boxes g) b\<rparr>"
  by (simp add: handle_ball_box_score_def score_boxes_value)

lemma foldl_handle_ball_box_score:
  "foldl handle_ball_box_score g bs =
     g\<lparr>score := score g + sum_list (map (box_value (boxes g)) bs)\<rparr>"
  by (induction bs arbitrary: g) (simp_all add: handle_ball_box_score_value add.assoc)

lemma example_boxes:
  "boxes example_game =
     [(Rect 0 520 160 80, 10), (Rect 160 520 160 80, 20), (Rect 320 520 160 80, 50),
      (Rect 480 520 160 80, 20), (Rect 640 520 160 80, 10)]"
  by (simp add: example_game_def init_boxes_def BOX_COUNT_def BOX_VALUES_def SCREEN_WIDTH_def
      SCREEN_HEIGHT_def BOX_HEIGHT_def upt_conv_Cons)

text \<open>
  C7. \<^verbatim>\<open>handle_ball_box_score\<close> looks for the first box, in the order of the list
  (left to right), whose span from \<open>rect.left\<close> to \<open>rect.right\<close> contains the ball's
  \<open>x\<close> and whose top is at or above the ball's lower edge. When there is one, its value
  is added to the score, once, and nothing else of the game changes; when there is none,
  the game is unchanged. No error is possible. Scoring a list of balls adds the value of
  each ball once.
\<close>

theorem handle_ball_box_score_first_match:
  "handle_ball_box_score g b =
     (case find (box_matches b) (boxes g) of
        None \<Rightarrow> g
      | Some bx \<Rightarrow> g\<lparr>score := score g + snd bx\<rparr>)
   \<and> foldl handle_ball_box_score g bs =
       g\<lparr>score := score g + sum_list (map (box_value (boxes g)) bs)\<rparr>"
  by (simp add: foldl_handle_ball_box_score)
     (simp add: handle_ball_box_score_def score_boxes_find split: option.split)


theorem handle_ball_box_score_first_match_witness:
  "find (box_matches example_ball_landed) (boxes example_game) = Some (Rect 320 520 160 80, 50)
   \<and> score (handle_ball_box_score example_game example_ball_landed) = 50
   \<and> find (box_matches example_ball_outside) (boxes example_game) = None
   \<and> handle_ball_box_score example_game example_ball_outside = example_game
   \<and> score (foldl handle_ball_box_score example_game
               [example_ball_landed, example_ball_outside, example_ball_landed]) = 100"
proof -
  have f1: "find (box_matches example_ball_landed) (boxes example_game)
            = Some (Rect 320 520 160 80, 50)"
    by (simp add: example_boxes box_matches_def example_ball_landed_def Ball_def Rect_def
        rect_left_def rect_right_def rect_top_def)
  have f2: "find (box_matches example_ball_outside) (boxes example_game) = None"
    by (simp add: example_boxes box_matches_def example_ball_outside_def Ball_def Rect_def
        rect_left_def rect_right_def rect_top_def)
  have s0: "score example_game = 0"
    by (simp add: example_game_def init_boxes_def Let_def)
  note landed = handle_ball_box_score_first_match [of example_game example_ball_landed
        "[example_ball_landed, example_ball_outside, example_ball_landed]"]
  note outside = handle_ball_box_score_first_match [of example_game example_ball_outside "[]"]
  have h1: "score (handle_ball_box_score example_game example_ball_landed) = 50"
    unfolding landed [THEN conjunct1] by (simp add: f1 s0)
  have h2: "handle_ball_box_score example_game example_ball_outside = example_game"
    unfolding outside [THEN conjunct1] by (simp add: f2)
  have h3: "score (foldl handle_ball_box_score example_game
               [example_ball_landed, example_ball_outside, example_ball_landed]) = 100"
    unfolding landed [THEN conjunct2] by (simp add: f1 f2 s0 box_value_def)
  show ?thesis
    using f1 f2 h1 h2 h3 by blast
qed

subsection \<open>What one collision and the loop over the pegs keep\<close>

lemma normal_times_distance:
  "fst (collision_normal b pg) * center_distance b pg = ball_x b - peg_x pg"
  "snd (collision_normal b pg) * center_distance b pg = ball_y b - peg_y pg"
  by (simp_all add: collision_normal_def center_distance_zero)

lemma normal_component_le_1: "\<bar>fst (collision_normal b pg)\<bar> \<le> 1"
proof -
  have "fst (collision_normal b pg) * fst (collision_normal b pg)
        + snd (collision_normal b pg) * snd (collision_normal b pg) = 1"
    using collision_normal_unit [of b pg] by (simp add: dot_def)
  then have "(fst (collision_normal b pg))\<^sup>2 \<le> 1"
    by (simp add: power2_eq_square) (smt (verit) zero_le_square)
  then show ?thesis by (simp add: abs_square_le_1)
qed

lemma speed_of_nonneg: "0 \<le> speed_of b"
  by (simp add: speed_of_def)

lemma handle_peg_collision_result:
  "\<exists>b' pg' rs'. handle_peg_collision b pg rs = Inr (b', pg', rs')
     \<and> peg_geometry pg' = peg_geometry pg
     \<and> ball_radius b' = ball_radius b
     \<and> finalized b' = finalized b
     \<and> speed_of b' \<le> speed_of b
     \<and> (if overlapping b pg
         then \<bar>ball_x b' - peg_x pg\<bar> \<le> ball_radius b + peg_radius pg
         else b' = b)"
proof (cases "overlapping b pg")
  case False
  then show ?thesis by (simp add: handle_peg_collision_miss)
next
  case True
  define nx where "nx = fst (collision_normal b pg)"
  define ny where "ny = snd (collision_normal b pg)"
  define d where "d = center_distance b pg"
  define m where "m = ball_radius b + peg_radius pg"
  define s where "s = ball_vx b * nx + ball_vy b * ny"
  from handle_peg_collision_hit [OF True, of rs]
  obtain b' pg' rs' where
    res: "handle_peg_collision b pg rs = Inr (b', pg', rs')"
    and geo: "peg_geometry pg' = peg_geometry pg"
    and x': "ball_x b' = ball_x b + nx * (m - d)"
    and vx': "ball_vx b' = ball_vx b - 2 * s * nx * COLLISION_DAMPING"
    and vy': "ball_vy b' = ball_vy b - 2 * s * ny * COLLISION_DAMPING"
    and r': "ball_radius b' = ball_radius b"
    and f': "finalized b' = finalized b"
    unfolding nx_def ny_def d_def m_def s_def dot_def velocity_def by fastforce
  have unit: "nx * nx + ny * ny = 1"
    using collision_normal_unit [of b pg] by (simp add: nx_def ny_def dot_def)
  have "ball_vx b' * ball_vx b' + ball_vy b' * ball_vy b'
        = ball_vx b * ball_vx b + ball_vy b * ball_vy b
          - 4 * COLLISION_DAMPING * (1 - COLLISION_DAMPING) * (s * s)"
    unfolding vx' vy' s_def by (rule bounce_speed_square [OF unit])
  also have "\<dots> \<le> ball_vx b * ball_vx b + ball_vy b * ball_vy b"
    by (simp add: COLLISION_DAMPING_def)
  finally have sp: "speed_of b' \<le> speed_of b"
    by (simp add: speed_of_def)
  have m0: "0 \<le> m"
    using True center_distance_nonneg [of b pg] by (simp add: overlapping_def m_def)
  have "ball_x b' - peg_x pg = nx * d + nx * (m - d)"
    using normal_times_distance(1) [of b pg] by (simp add: x' nx_def d_def)
  also have "\<dots> = nx * m" by (simp add: algebra_simps)
  finally have "\<bar>ball_x b' - peg_x pg\<bar> = \<bar>nx\<bar> * m"
    using m0 by (simp add: abs_mult)
  also have "\<dots> \<le> 1 * m"
    using normal_component_le_1 [of b pg] m0 unfolding nx_def by (rule mult_right_mono)
  finally have xb: "\<bar>ball_x b' - peg_x pg\<bar> \<le> ball_radius b + peg_radius pg"
    by (simp add: m_def)
  show ?thesis
    using res geo r' f' sp xb True by simp
qed


lemma update_peg_collisions_invariant:
  assumes "P b"
    and step: "\<And>b pg rs b' pg' rs'. P b \<Longrightarrow> pg \<in> set pgs \<Longrightarrow>
                 handle_peg_collision b pg rs = Inr (b', pg', rs') \<Longrightarrow> P b'"
  shows "\<exists>b' pgs' rs'. update_peg_collisions b pgs rs = Inr (b', pgs', rs') \<and> P b'
           \<and> map peg_geometry pgs' = map peg_geometry pgs"
  using assms
proof (induction pgs arbitrary: b rs)
  case Nil
  then show ?case by simp
next
  case (Cons pg pgs)
  from handle_peg_collision_result [of b pg rs]
  obtain b1 pg1 rs1 where
    h: "handle_peg_collision b pg rs = Inr (b1, pg1, rs1)"
    and g1: "peg_geometry pg1 = peg_geometry pg"
    by blast
  have P1: "P b1"
    using Cons.prems(2) [OF Cons.prems(1) _ h] by simp
  have "\<exists>b' pgs' rs'. update_peg_collisions b1 pgs rs1 = Inr (b', pgs', rs') \<and> P b'
           \<and> map peg_geometry pgs' = map peg_geometry pgs"
  proof (rule Cons.IH [OF P1])
    fix b pg' rs b' pg'' rs'
    assume "P b" "pg' \<in> set pgs" "handle_peg_collision b pg' rs = Inr (b', pg'', rs')"
    then show "P b'"
      using Cons.prems(2) [of b pg' rs b' pg'' rs'] by simp
  qed
  then obtain b2 pgs2 rs2 where
    "update_peg_collisions b1 pgs rs1 = Inr (b2, pgs2, rs2)" "P b2"
    "map peg_geometry pgs2 = map peg_geometry pgs"
    by blast
  then show ?case
    using h g1 by simp
qed

lemma update_clamp_speed_result:
  "\<exists>b'. update_clamp_speed b = Inr b'
     \<and> speed_of b' = (if MAX_BALL_SPEED < speed_of b then MAX_BALL_SPEED else speed_of b)
     \<and> ball_x b' = ball_x b \<and> ball_y b' = ball_y b
     \<and> ball_radius b' = ball_radius b \<and> finalized b' = finalized b"
proof (cases "MAX_BALL_SPEED < speed_of b")
  case False
  then show ?thesis
    by (simp add: update_clamp_speed_def math_sqrt_sum_squares speed_of_def)
next
  case True
  define sp where "sp = speed_of b"
  define f where "f = MAX_BALL_SPEED / sp"
  have pos: "0 < sp"
    using True by (simp add: sp_def MAX_BALL_SPEED_def)
  have sq: "sp * sp = ball_vx b * ball_vx b + ball_vy b * ball_vy b"
    by (simp add: sp_def speed_of_def)
  have res: "update_clamp_speed b = Inr (b\<lparr>ball_vx := ball_vx b * f, ball_vy := ball_vy b * f\<rparr>)"
    using True pos
    by (simp add: update_clamp_speed_def math_sqrt_sum_squares speed_of_def [symmetric]
        sp_def [symmetric] py_div_def f_def)
  have "(ball_vx b * f) * (ball_vx b * f) + (ball_vy b * f) * (ball_vy b * f)
        = (ball_vx b * ball_vx b + ball_vy b * ball_vy b) * (f * f)"
    by (simp add: algebra_simps)
  also have "\<dots> = (sp * sp) * (f * f)"
    by (simp add: sq)
  also have "\<dots> = MAX_BALL_SPEED\<^sup>2"
    using pos by (simp add: f_def power2_eq_square)
  finally have "sqrt ((ball_vx b * f) * (ball_vx b * f) + (ball_vy b * f) * (ball_vy b * f))
        = MAX_BALL_SPEED"
    by (simp add: MAX_BALL_SPEED_def)
  then have "speed_of (b\<lparr>ball_vx := ball_vx b * f, ball_vy := ball_vy b * f\<rparr>) = MAX_BALL_SPEED"
    by (simp add: speed_of_def)
  then show ?thesis
    using True res by simp
qed

lemma speed_of_damped_x:
  "speed_of (b\<lparr>ball_vx := - ball_vx b * WALL_BOUNCE_FACTOR\<rparr>) \<le> speed_of b"
proof -
  have "(ball_vx b * WALL_BOUNCE_FACTOR) * (ball_vx b * WALL_BOUNCE_FACTOR)
        = (ball_vx b * ball_vx b) * (16 / 25)"
    by (simp add: WALL_BOUNCE_FACTOR_def)
  also have "\<dots> \<le> ball_vx b * ball_vx b"
    by (simp add: mult_left_le)
  finally show ?thesis
    by (simp add: speed_of_def)
qed

lemma speed_of_damped_y:
  "speed_of (b\<lparr>ball_vy := - ball_vy b * WALL_BOUNCE_FACTOR\<rparr>) \<le> speed_of b"
proof -
  have "(ball_vy b * WALL_BOUNCE_FACTOR) * (ball_vy b * WALL_BOUNCE_FACTOR)
        = (ball_vy b * ball_vy b) * (16 / 25)"
    by (simp add: WALL_BOUNCE_FACTOR_def)
  also have "\<dots> \<le> ball_vy b * ball_vy b"
    by (simp add: mult_left_le)
  finally show ?thesis
    by (simp add: speed_of_def)
qed

lemma speed_of_position: "speed_of (b\<lparr>ball_x := x\<rparr>) = speed_of b"
  "speed_of (b\<lparr>ball_y := y\<rparr>) = speed_of b" "speed_of (b\<lparr>finalized := f\<rparr>) = speed_of b"
  by (simp_all add: speed_of_def)

lemma update_walls_speed: "speed_of (update_walls b) \<le> speed_of b"
  using speed_of_damped_x [of "b\<lparr>ball_x := ball_radius b\<rparr>"]
    speed_of_damped_x [of "b\<lparr>ball_x := real_of_int SCREEN_WIDTH - ball_radius b\<rparr>"]
  by (simp add: update_walls_def speed_of_position)

lemma update_ceiling_speed: "speed_of (update_ceiling b) \<le> speed_of b"
  using speed_of_damped_y [of "b\<lparr>ball_y := ball_radius b\<rparr>"]
  by (simp add: update_ceiling_def speed_of_position)

lemma update_integrate_speed: "speed_of (update_integrate b) = speed_of b"
  by (simp add: update_integrate_def speed_of_def)

lemma update_finalize_speed: "speed_of (update_finalize b t) = speed_of b"
  by (simp add: update_finalize_def speed_of_def)


lemma update_blocks_radius:
  "ball_radius (update_gravity b) = ball_radius b"
  "ball_radius (update_integrate b) = ball_radius b"
  "ball_radius (update_walls b) = ball_radius b"
  "ball_radius (update_ceiling b) = ball_radius b"
  "ball_radius (update_finalize b t) = ball_radius b"
  by (simp_all add: update_gravity_def update_integrate_def update_walls_def
      update_ceiling_def update_finalize_def)

lemma update_blocks_finalized:
  "finalized (update_gravity b) = finalized b"
  "finalized (update_integrate b) = finalized b"
  "finalized (update_walls b) = finalized b"
  "finalized (update_ceiling b) = finalized b"
  "finalized (update_finalize b t) = (finalized b \<or> t \<le> ball_y b + ball_radius b)"
  by (simp_all add: update_gravity_def update_integrate_def update_walls_def
      update_ceiling_def update_finalize_def)

lemma update_walls_inside:
  assumes "2 * ball_radius b \<le> real_of_int SCREEN_WIDTH"
  shows "ball_radius b \<le> ball_x (update_walls b)
         \<and> ball_x (update_walls b) \<le> real_of_int SCREEN_WIDTH - ball_radius b"
  using assms by (simp add: update_walls_def)

lemma update_ceiling_x: "ball_x (update_ceiling b) = ball_x b"
  by (simp add: update_ceiling_def)

lemma update_finalize_x: "ball_x (update_finalize b t) = ball_x b"
  by (simp add: update_finalize_def)

lemma Ball_update_result:
  "\<exists>b' pgs' rs'. Ball_update b pgs t rs = Inr (b', pgs', rs')
     \<and> speed_of b' \<le> MAX_BALL_SPEED
     \<and> ball_radius b' = ball_radius b
     \<and> (finalized b \<longrightarrow> finalized b')
     \<and> map peg_geometry pgs' = map peg_geometry pgs"
proof -
  from update_clamp_speed_result [of "update_gravity b"]
  obtain b1 where
    c: "update_clamp_speed (update_gravity b) = Inr b1"
    and s1: "speed_of b1 \<le> MAX_BALL_SPEED"
    and r1: "ball_radius b1 = ball_radius b"
    and f1: "finalized b1 = finalized b"
    by (auto simp add: update_blocks_radius update_blocks_finalized split: if_splits)
  define b2 where "b2 = update_ceiling (update_walls (update_integrate b1))"
  define P where "P = (\<lambda>x. speed_of x \<le> MAX_BALL_SPEED \<and> ball_radius x = ball_radius b
                          \<and> finalized x = finalized b)"
  have "speed_of b2 \<le> speed_of b1"
    unfolding b2_def
    using update_ceiling_speed [of "update_walls (update_integrate b1)"]
      update_walls_speed [of "update_integrate b1"] update_integrate_speed [of b1]
    by simp
  then have P2: "P b2"
    using s1 r1 f1
    by (simp add: P_def b2_def update_blocks_radius update_blocks_finalized)
  have "\<exists>b' pgs' rs'. update_peg_collisions b2 pgs rs = Inr (b', pgs', rs') \<and> P b'
           \<and> map peg_geometry pgs' = map peg_geometry pgs"
  proof (rule update_peg_collisions_invariant [where P = P and b = b2, OF P2])
    fix x pg rs0 x' pg' rs0'
    assume "P x" and h: "handle_peg_collision x pg rs0 = Inr (x', pg', rs0')"
    with handle_peg_collision_result [of x pg rs0]
    show "P x'" by (auto simp add: P_def)
  qed
  then obtain b3 pgs3 rs3 where
    u: "update_peg_collisions b2 pgs rs = Inr (b3, pgs3, rs3)"
    and P3: "P b3" and g3: "map peg_geometry pgs3 = map peg_geometry pgs"
    by blast
  have "Ball_update b pgs t rs = Inr (update_finalize b3 t, pgs3, rs3)"
    using c u by (simp add: Ball_update_def b2_def)
  then show ?thesis
    using P3 g3
    by (simp add: P_def update_finalize_speed update_blocks_radius update_blocks_finalized)
qed

subsection \<open>C4: the speed cap\<close>

text \<open>
  C4. In \<^verbatim>\<open>Ball.update\<close> the clamp leaves a speed of exactly \<open>MAX_BALL_SPEED\<close> when
  the speed after gravity exceeds it, and the speed unchanged otherwise. The integration
  keeps the speed; the wall bounce, the ceiling bounce and each peg resolution do not
  increase it. So \<^verbatim>\<open>Ball.update\<close> returns, for every ball and every list of pegs, a
  ball whose speed \<open>sqrt (vx\<^sup>2 + vy\<^sup>2)\<close> is at most \<open>MAX_BALL_SPEED\<close>.
\<close>

theorem speed_cap:
  "(\<exists>b1. update_clamp_speed (update_gravity b) = Inr b1
      \<and> speed_of b1 = (if MAX_BALL_SPEED < speed_of (update_gravity b) then MAX_BALL_SPEED
                        else speed_of (update_gravity b))
      \<and> speed_of b1 \<le> MAX_BALL_SPEED)
   \<and> speed_of (update_integrate b) = speed_of b
   \<and> speed_of (update_walls b) \<le> speed_of b
   \<and> speed_of (update_ceiling b) \<le> speed_of b
   \<and> (\<exists>b' pg' rs'. handle_peg_collision b pg rs = Inr (b', pg', rs') \<and> speed_of b' \<le> speed_of b)
   \<and> speed_of (update_finalize b box_y_top) = speed_of b
   \<and> (\<exists>b' pgs' rs'. Ball_update b pgs box_y_top rs = Inr (b', pgs', rs')
         \<and> speed_of b' \<le> MAX_BALL_SPEED)"
proof -
  have 1: "\<exists>b1. update_clamp_speed (update_gravity b) = Inr b1
      \<and> speed_of b1 = (if MAX_BALL_SPEED < speed_of (update_gravity b) then MAX_BALL_SPEED
                        else speed_of (update_gravity b))
      \<and> speed_of b1 \<le> MAX_BALL_SPEED"
    using update_clamp_speed_result [of "update_gravity b"] by auto
  have 2: "\<exists>b' pg' rs'. handle_peg_collision b pg rs = Inr (b', pg', rs') \<and> speed_of b' \<le> speed_of b"
    using handle_peg_collision_result [of b pg rs] by blast
  have 3: "\<exists>b' pgs' rs'. Ball_update b pgs box_y_top rs = Inr (b', pgs', rs')
         \<and> speed_of b' \<le> MAX_BALL_SPEED"
    using Ball_update_result [of b pgs box_y_top rs] by blast
  show ?thesis
    using 1 2 3 update_integrate_speed update_walls_speed update_ceiling_speed
      update_finalize_speed
    by blast
qed


subsection \<open>C9: the layout of the pegs and the reset\<close>

lemma init_pegs_row_geometry:
  "map peg_geometry (fst (init_pegs_row sx y is acc rs)) =
     map peg_geometry acc
     @ map (\<lambda>i. (sx + real i * real_of_int PEG_SPACING_X, y, real_of_int PEG_RADIUS)) is"
  by (induction "is" arbitrary: acc rs)
     (simp_all add: split_def Let_def Peg_def peg_geometry_def)

lemma init_pegs_row_particles:
  "map particles (fst (init_pegs_row sx y is acc rs)) =
     map particles acc @ map (\<lambda>i. []) is"
  by (induction "is" arbitrary: acc rs)
     (simp_all add: split_def Let_def Peg_def)

lemma spec_peg_row_code:
  "spec_peg_row r =
     map (\<lambda>i. (real_of_int (SCREEN_WIDTH - (int (r + 3) - 1) * PEG_SPACING_X) / 2
                  + real i * real_of_int PEG_SPACING_X,
                real_of_int (PEG_OFFSET_TOP + int r * PEG_SPACING_Y),
                real_of_int PEG_RADIUS))
       [0..<r + 3]"
  by (simp add: spec_peg_row_def algebra_simps diff_divide_distrib add_divide_distrib)

lemma init_pegs_rows_geometry:
  "map peg_geometry (fst (init_pegs_rows rows acc rs)) =
     map peg_geometry acc @ concat (map spec_peg_row rows)"
proof (induction rows arbitrary: acc rs)
  case Nil
  show ?case by simp
next
  case (Cons r rows)
  show ?case
    by (simp only: init_pegs_rows.simps Let_def split_def Cons.IH init_pegs_row_geometry
        spec_peg_row_code) simp
qed

lemma init_pegs_rows_particles:
  "list_all (\<lambda>pg. particles pg = []) acc \<Longrightarrow>
   list_all (\<lambda>pg. particles pg = []) (fst (init_pegs_rows rows acc rs))"
proof (induction rows arbitrary: acc rs)
  case Nil
  then show ?case by simp
next
  case (Cons r rows)
  have "list_all (\<lambda>pg. particles pg = [])
          (fst (init_pegs_row (real_of_int (SCREEN_WIDTH - (int (r + 3) - 1) * PEG_SPACING_X) / 2)
                 (real_of_int (PEG_OFFSET_TOP + int r * PEG_SPACING_Y)) [0..<r + 3] acc rs))"
    (is "list_all _ ?row")
  proof -
    have "map particles ?row = map particles acc @ map (\<lambda>i. []) [0..<r + 3]"
      by (rule init_pegs_row_particles)
    moreover have "map particles acc = map (\<lambda>pg. []) acc"
      using Cons.prems by (simp add: list_all_iff)
    ultimately have "\<forall>ps \<in> set (map particles ?row). ps = []"
      by auto
    then show ?thesis by (simp add: list_all_iff)
  qed
  from Cons.IH [OF this] show ?case
    by (simp add: Let_def split_def)
qed

lemma init_pegs_result:
  "map peg_geometry (pegs (fst (init_pegs g rs))) = concat (map spec_peg_row [0..<NUM_PEG_ROWS])"
  "list_all (\<lambda>pg. particles pg = []) (pegs (fst (init_pegs g rs)))"
  "balls (fst (init_pegs g rs)) = balls g"
  "score (fst (init_pegs g rs)) = score g"
  "boxes (fst (init_pegs g rs)) = boxes g"
  using init_pegs_rows_geometry [of "[0..<NUM_PEG_ROWS]" "[]" rs]
    init_pegs_rows_particles [of "[]" "[0..<NUM_PEG_ROWS]" rs]
  by (simp_all add: init_pegs_def split_def Let_def)

lemma length_layout: "length (concat (map spec_peg_row [0..<NUM_PEG_ROWS])) = 52"
  by (simp add: length_concat NUM_PEG_ROWS_def spec_peg_row_def upt_conv_Cons o_def)


lemma sum_row_counts: "(\<Sum>r<NUM_PEG_ROWS. r + 3) = 52"
  by (simp add: NUM_PEG_ROWS_def eval_nat_numeral lessThan_Suc)

lemma spec_peg_row_centred:
  assumes "i < r + 3"
  shows "fst (spec_peg_row r ! i) + fst (spec_peg_row r ! (r + 2 - i)) = real_of_int SCREEN_WIDTH"
proof -
  have j: "r + 2 - i < r + 3" by simp
  have "real (r + 2 - i) = real (r + 2) - real i"
    using assms by (simp add: of_nat_diff)
  then show ?thesis
    using assms j by (simp add: spec_peg_row_def algebra_simps)
qed

lemma reset_game_result:
  "map peg_geometry (pegs (fst (reset_game g rs))) = concat (map spec_peg_row [0..<NUM_PEG_ROWS])"
  "list_all (\<lambda>pg. particles pg = []) (pegs (fst (reset_game g rs)))"
  "balls (fst (reset_game g rs)) = []"
  "score (fst (reset_game g rs)) = 0"
  by (simp_all add: reset_game_def init_pegs_result)

text \<open>
  C9. After \<^verbatim>\<open>reset_game\<close> the pegs are, row after row for the rows \<open>0\<close> to
  \<open>NUM_PEG_ROWS - 1\<close>, at the places of the specification's layout: row \<open>r\<close> has exactly
  \<open>r + 3\<close> pegs, and they are centred on the width of the playfield (the \<open>i\<close>-th peg
  from the left and the \<open>i\<close>-th from the right are at the same distance from the
  middle). The number of pegs is the sum of \<open>r + 3\<close> over the rows, which is 52; there is
  no ball left, and no peg has a particle.
\<close>

theorem reset_game_layout:
  "map peg_geometry (pegs (fst (reset_game g rs))) = concat (map spec_peg_row [0..<NUM_PEG_ROWS])
   \<and> (\<forall>r. length (spec_peg_row r) = r + 3)
   \<and> (\<forall>r i. i < r + 3 \<longrightarrow>
         fst (spec_peg_row r ! i) + fst (spec_peg_row r ! (r + 2 - i)) = real_of_int SCREEN_WIDTH)
   \<and> length (pegs (fst (reset_game g rs))) = (\<Sum>r<NUM_PEG_ROWS. r + 3)
   \<and> length (pegs (fst (reset_game g rs))) = 52
   \<and> balls (fst (reset_game g rs)) = []
   \<and> (\<forall>pg \<in> set (pegs (fst (reset_game g rs))). particles pg = [])"
proof -
  have "length (map peg_geometry (pegs (fst (reset_game g rs)))) = 52"
    by (simp only: reset_game_result(1) length_layout)
  then have len: "length (pegs (fst (reset_game g rs))) = 52"
    by simp
  have "\<forall>pg \<in> set (pegs (fst (reset_game g rs))). particles pg = []"
    using reset_game_result(2) [of g rs] by (simp add: list_all_iff)
  moreover have "\<forall>r. length (spec_peg_row r) = r + 3"
    by (simp add: spec_peg_row_def)
  ultimately show ?thesis
    using len reset_game_result(1,3) [of g rs] sum_row_counts spec_peg_row_centred
    by simp
qed

theorem reset_game_layout_witness:
  "balls (example_game\<lparr>balls := [example_ball], pegs := [example_peg_with_particle]\<rparr>)
     = [example_ball]
   \<and> length (pegs (fst (reset_game
        (example_game\<lparr>balls := [example_ball], pegs := [example_peg_with_particle]\<rparr>)
        example_rng))) = 52
   \<and> balls (fst (reset_game
        (example_game\<lparr>balls := [example_ball], pegs := [example_peg_with_particle]\<rparr>)
        example_rng)) = []
   \<and> list_all (\<lambda>pg. particles pg = []) (pegs (fst (reset_game
        (example_game\<lparr>balls := [example_ball], pegs := [example_peg_with_particle]\<rparr>)
        example_rng)))
   \<and> map fst (spec_peg_row 0) = [330, 400, 470]
   \<and> (0::nat) < 0 + 3
   \<and> fst (spec_peg_row 0 ! 0) + fst (spec_peg_row 0 ! (0 + 2 - 0)) = 800"
proof -
  have row: "map fst (spec_peg_row 0) = [330, 400, 470]"
    by (simp add: spec_peg_row_def SCREEN_WIDTH_def PEG_SPACING_X_def upt_conv_Cons)
  note layout = reset_game_layout
    [of "example_game\<lparr>balls := [example_ball], pegs := [example_peg_with_particle]\<rparr>"
        example_rng]
  have "(0::nat) < 0 + 3 \<longrightarrow>
        fst (spec_peg_row 0 ! 0) + fst (spec_peg_row 0 ! (0 + 2 - 0)) = real_of_int SCREEN_WIDTH"
    using layout by blast
  then have centred: "fst (spec_peg_row 0 ! 0) + fst (spec_peg_row 0 ! (0 + 2 - 0)) = 800"
    by (simp add: SCREEN_WIDTH_def)
  from layout show ?thesis
    using row centred by (simp add: list_all_iff)
qed


subsection \<open>The loop over the balls and the play step\<close>

lemma peg_geometry_Peg_update: "peg_geometry (Peg_update pg) = peg_geometry pg"
  by (simp add: Peg_update_def peg_geometry_particles)

lemma update_balls_result:
  "\<exists>bs' pgs' rs'. update_balls bs pgs t rs = Inr (bs', pgs', rs')
     \<and> map peg_geometry pgs' = map peg_geometry pgs
     \<and> list_all2 (\<lambda>b b'. if finalized b then b' = b
                          else (\<exists>pgs1 rs1 pgs2 rs2.
                                  map peg_geometry pgs1 = map peg_geometry pgs
                                  \<and> Ball_update b pgs1 t rs1 = Inr (b', pgs2, rs2))) bs bs'"
proof (induction bs arbitrary: pgs rs)
  case Nil
  show ?case by simp
next
  case (Cons b bs)
  show ?case
  proof (cases "finalized b")
    case True
    from Cons.IH [of pgs rs] obtain bs2 pgs2 rs2 where
      "update_balls bs pgs t rs = Inr (bs2, pgs2, rs2)"
      "map peg_geometry pgs2 = map peg_geometry pgs"
      "list_all2 (\<lambda>b b'. if finalized b then b' = b
                          else (\<exists>pgs1 rs1 pgs2 rs2.
                                  map peg_geometry pgs1 = map peg_geometry pgs
                                  \<and> Ball_update b pgs1 t rs1 = Inr (b', pgs2, rs2))) bs bs2"
      by blast
    then show ?thesis
      using True by simp
  next
    case False
    from Ball_update_result [of b pgs t rs] obtain b1 pgs1 rs1 where
      u: "Ball_update b pgs t rs = Inr (b1, pgs1, rs1)"
      and g1: "map peg_geometry pgs1 = map peg_geometry pgs"
      by blast
    from Cons.IH [of pgs1 rs1] obtain bs2 pgs2 rs2 where
      ub: "update_balls bs pgs1 t rs1 = Inr (bs2, pgs2, rs2)"
      and g2: "map peg_geometry pgs2 = map peg_geometry pgs1"
      and l2: "list_all2 (\<lambda>b b'. if finalized b then b' = b
                          else (\<exists>pgs0 rs0 pgs2 rs2.
                                  map peg_geometry pgs0 = map peg_geometry pgs1
                                  \<and> Ball_update b pgs0 t rs0 = Inr (b', pgs2, rs2))) bs bs2"
      by blast
    have head: "\<exists>pgs0 rs0 pgs2 rs2. map peg_geometry pgs0 = map peg_geometry pgs
                  \<and> Ball_update b pgs0 t rs0 = Inr (b1, pgs2, rs2)"
      using u by blast
    have tail: "list_all2 (\<lambda>b b'. if finalized b then b' = b
                          else (\<exists>pgs0 rs0 pgs2 rs2.
                                  map peg_geometry pgs0 = map peg_geometry pgs
                                  \<and> Ball_update b pgs0 t rs0 = Inr (b', pgs2, rs2))) bs bs2"
      using l2 unfolding g1 .
    have "update_balls (b # bs) pgs t rs = Inr (b1 # bs2, pgs2, rs2)"
      using False u ub by simp
    moreover have "map peg_geometry pgs2 = map peg_geometry pgs"
      using g1 g2 by simp
    moreover have "list_all2 (\<lambda>b b'. if finalized b then b' = b
                          else (\<exists>pgs0 rs0 pgs2 rs2.
                                  map peg_geometry pgs0 = map peg_geometry pgs
                                  \<and> Ball_update b pgs0 t rs0 = Inr (b', pgs2, rs2)))
                 (b # bs) (b1 # bs2)"
      using False head tail by simp
    ultimately show ?thesis by blast
  qed
qed

lemma update_play_result:
  "\<exists>bs1 pgs1 g' rs'.
      update_balls (balls g) (map Peg_update (pegs g))
        (real_of_int (SCREEN_HEIGHT - BOX_HEIGHT)) rs = Inr (bs1, pgs1, rs')
      \<and> update_play g rs = Inr (g', rs')
      \<and> balls g' = filter (\<lambda>b. \<not> finalized b) bs1
      \<and> pegs g' = pgs1
      \<and> score g' = score g + sum_list (map (box_value (boxes g)) (filter finalized bs1))
      \<and> boxes g' = boxes g
      \<and> balls_allowed g' = balls_allowed g
      \<and> balls_dropped g' = balls_dropped g"
proof -
  from update_balls_result
    [of "balls g" "map Peg_update (pegs g)" "real_of_int (SCREEN_HEIGHT - BOX_HEIGHT)" rs]
  obtain bs1 pgs1 rs' where
    u: "update_balls (balls g) (map Peg_update (pegs g))
          (real_of_int (SCREEN_HEIGHT - BOX_HEIGHT)) rs = Inr (bs1, pgs1, rs')"
    by blast
  define g3 where "g3 = g\<lparr>pegs := pgs1,
      score := score g + sum_list (map (box_value (boxes g)) (filter finalized bs1)),
      balls := filter (\<lambda>b. \<not> finalized b) bs1\<rparr>"
  define g5 where "g5 = (if balls_dropped g3 = balls_allowed g3 \<and> length (balls g3) = 0
      then (if score g3 > best_score g3
            then g3\<lparr>game_over_reason := ''All Balls Used'', best_score := score g3,
                    state := STATE_GAMEOVER\<rparr>
            else g3\<lparr>game_over_reason := ''All Balls Used'', state := STATE_GAMEOVER\<rparr>)
      else g3)"
  have up: "update_play g rs = Inr (g5, rs')"
    unfolding update_play_def Let_def u
    by (simp add: foldl_handle_ball_box_score g5_def g3_def)
  have "balls g5 = filter (\<lambda>b. \<not> finalized b) bs1" "pegs g5 = pgs1"
    "score g5 = score g + sum_list (map (box_value (boxes g)) (filter finalized bs1))"
    "boxes g5 = boxes g" "balls_allowed g5 = balls_allowed g" "balls_dropped g5 = balls_dropped g"
    by (simp_all add: g5_def g3_def)
  with u up show ?thesis by blast
qed


subsection \<open>C6: a finalized ball is not simulated again\<close>

lemma update_balls_nth:
  assumes "update_balls bs pgs t rs = Inr (bs1, pgs1, rs1)"
  shows "length bs1 = length bs"
    and "\<forall>i<length bs. finalized (bs ! i) \<longrightarrow> bs1 ! i = bs ! i"
    and "\<forall>i<length bs. \<not> finalized (bs ! i) \<longrightarrow>
           (\<exists>pgs0 rs0 pgs2 rs2. map peg_geometry pgs0 = map peg_geometry pgs
              \<and> Ball_update (bs ! i) pgs0 t rs0 = Inr (bs1 ! i, pgs2, rs2))"
proof -
  from update_balls_result [of bs pgs t rs] assms
  have l: "list_all2 (\<lambda>b b'. if finalized b then b' = b
                          else (\<exists>pgs1 rs1 pgs2 rs2.
                                  map peg_geometry pgs1 = map peg_geometry pgs
                                  \<and> Ball_update b pgs1 t rs1 = Inr (b', pgs2, rs2))) bs bs1"
    by auto
  show "length bs1 = length bs"
    using l by (simp add: list_all2_lengthD)
  show "\<forall>i<length bs. finalized (bs ! i) \<longrightarrow> bs1 ! i = bs ! i"
    using list_all2_nthD [OF l] by auto
  show "\<forall>i<length bs. \<not> finalized (bs ! i) \<longrightarrow>
           (\<exists>pgs0 rs0 pgs2 rs2. map peg_geometry pgs0 = map peg_geometry pgs
              \<and> Ball_update (bs ! i) pgs0 t rs0 = Inr (bs1 ! i, pgs2, rs2))"
  proof (intro allI impI)
    fix i assume "i < length bs" "\<not> finalized (bs ! i)"
    with list_all2_nthD [OF l, of i]
    show "\<exists>pgs0 rs0 pgs2 rs2. map peg_geometry pgs0 = map peg_geometry pgs
              \<and> Ball_update (bs ! i) pgs0 t rs0 = Inr (bs1 ! i, pgs2, rs2)"
      by simp
  qed
qed

text \<open>
  C6. \<^verbatim>\<open>Ball.update\<close> never clears the flag \<open>finalized\<close>. In one run of
  \<^verbatim>\<open>update_play\<close>, the loop over the balls leaves every ball whose flag is set as it
  is (position, velocity and all other fields) and passes every other ball through
  \<^verbatim>\<open>Ball.update\<close>; the balls whose flag is set after the loop are scored, each once,
  and taken out of the list in the same run, so that no ball of the list after the run
  has the flag set.
\<close>

theorem finalized_ball_not_simulated:
  "(\<exists>b' pgs' rs'. Ball_update b pgs t rs = Inr (b', pgs', rs') \<and> (finalized b \<longrightarrow> finalized b'))
   \<and> (\<exists>bs1 pgs1 g' rs'.
         update_balls (balls g) (map Peg_update (pegs g))
           (real_of_int (SCREEN_HEIGHT - BOX_HEIGHT)) rs = Inr (bs1, pgs1, rs')
         \<and> length bs1 = length (balls g)
         \<and> (\<forall>i<length (balls g). finalized (balls g ! i) \<longrightarrow> bs1 ! i = balls g ! i)
         \<and> (\<forall>i<length (balls g). \<not> finalized (balls g ! i) \<longrightarrow>
              (\<exists>pgs0 rs0 pgs2 rs2.
                 Ball_update (balls g ! i) pgs0 (real_of_int (SCREEN_HEIGHT - BOX_HEIGHT)) rs0
                   = Inr (bs1 ! i, pgs2, rs2)))
         \<and> update_play g rs = Inr (g', rs')
         \<and> balls g' = filter (\<lambda>b. \<not> finalized b) bs1
         \<and> score g' = score g + sum_list (map (box_value (boxes g)) (filter finalized bs1))
         \<and> (\<forall>b \<in> set (balls g'). \<not> finalized b))"
proof
  show "\<exists>b' pgs' rs'. Ball_update b pgs t rs = Inr (b', pgs', rs') \<and> (finalized b \<longrightarrow> finalized b')"
    using Ball_update_result [of b pgs t rs] by blast
next
  from update_play_result [of g rs] obtain bs1 pgs1 g' rs' where
    u: "update_balls (balls g) (map Peg_update (pegs g))
          (real_of_int (SCREEN_HEIGHT - BOX_HEIGHT)) rs = Inr (bs1, pgs1, rs')"
    and p: "update_play g rs = Inr (g', rs')"
    and b: "balls g' = filter (\<lambda>b. \<not> finalized b) bs1"
    and s: "score g' = score g + sum_list (map (box_value (boxes g)) (filter finalized bs1))"
    by blast
  have "\<forall>b \<in> set (balls g'). \<not> finalized b"
    by (simp add: b)
  moreover have "\<forall>i<length (balls g). \<not> finalized (balls g ! i) \<longrightarrow>
              (\<exists>pgs0 rs0 pgs2 rs2.
                 Ball_update (balls g ! i) pgs0 (real_of_int (SCREEN_HEIGHT - BOX_HEIGHT)) rs0
                   = Inr (bs1 ! i, pgs2, rs2))"
    using update_balls_nth(3) [OF u] by blast
  ultimately show "\<exists>bs1 pgs1 g' rs'.
         update_balls (balls g) (map Peg_update (pegs g))
           (real_of_int (SCREEN_HEIGHT - BOX_HEIGHT)) rs = Inr (bs1, pgs1, rs')
         \<and> length bs1 = length (balls g)
         \<and> (\<forall>i<length (balls g). finalized (balls g ! i) \<longrightarrow> bs1 ! i = balls g ! i)
         \<and> (\<forall>i<length (balls g). \<not> finalized (balls g ! i) \<longrightarrow>
              (\<exists>pgs0 rs0 pgs2 rs2.
                 Ball_update (balls g ! i) pgs0 (real_of_int (SCREEN_HEIGHT - BOX_HEIGHT)) rs0
                   = Inr (bs1 ! i, pgs2, rs2)))
         \<and> update_play g rs = Inr (g', rs')
         \<and> balls g' = filter (\<lambda>b. \<not> finalized b) bs1
         \<and> score g' = score g + sum_list (map (box_value (boxes g)) (filter finalized bs1))
         \<and> (\<forall>b \<in> set (balls g'). \<not> finalized b)"
    using u p b s update_balls_nth(1,2) [OF u] by blast
qed


lemma example_box_value: "box_value (boxes example_game) example_ball_landed = 50"
proof -
  have "find (box_matches example_ball_landed) (boxes example_game)
            = Some (Rect 320 520 160 80, 50)"
    by (simp add: example_boxes box_matches_def example_ball_landed_def Ball_def Rect_def
        rect_left_def rect_right_def rect_top_def)
  then show ?thesis by (simp add: box_value_def)
qed

lemma example_game_landed_fields:
  "balls example_game_landed = [example_ball_landed]"
  "boxes example_game_landed = boxes example_game"
  "score example_game_landed = 0"
  "finalized example_ball_landed"
  by (simp_all add: example_game_landed_def example_game_def init_boxes_def Let_def
      example_ball_landed_def)

theorem finalized_ball_not_simulated_witness:
  "0 < length (balls example_game_landed)
   \<and> finalized (balls example_game_landed ! 0)
   \<and> (\<exists>g' rs'. update_play example_game_landed example_rng = Inr (g', rs')
         \<and> balls g' = [] \<and> score g' = 50)"
proof -
  from finalized_ball_not_simulated
    [of example_ball_landed "[]" 0 example_rng example_game_landed]
  obtain bs1 g' rs' where
    len: "length bs1 = length (balls example_game_landed)"
    and same: "\<forall>i<length (balls example_game_landed).
                 finalized (balls example_game_landed ! i) \<longrightarrow> bs1 ! i = balls example_game_landed ! i"
    and p: "update_play example_game_landed example_rng = Inr (g', rs')"
    and b: "balls g' = filter (\<lambda>b. \<not> finalized b) bs1"
    and s: "score g' = score example_game_landed
              + sum_list (map (box_value (boxes example_game_landed)) (filter finalized bs1))"
    by blast
  have "length bs1 = 1" "bs1 ! 0 = example_ball_landed"
    using len same by (simp_all add: example_game_landed_fields)
  then have bs1: "bs1 = [example_ball_landed]"
    by (cases bs1) simp_all
  have "balls g' = []" "score g' = 50"
    using b s by (simp_all add: bs1 example_game_landed_fields example_box_value)
  with p show ?thesis
    by (simp add: example_game_landed_fields)
qed

subsection \<open>C10: the score does not decrease\<close>

lemma init_boxes_boxes:
  "boxes (init_boxes g) =
     [(Rect 0 520 160 80, 10), (Rect 160 520 160 80, 20), (Rect 320 520 160 80, 50),
      (Rect 480 520 160 80, 20), (Rect 640 520 160 80, 10)]"
  by (simp add: init_boxes_def BOX_COUNT_def BOX_VALUES_def SCREEN_WIDTH_def
      SCREEN_HEIGHT_def BOX_HEIGHT_def upt_conv_Cons)

lemma box_value_cases:
  "box_value bxs b = 0 \<and> find (box_matches b) bxs = None
   \<or> (\<exists>bx \<in> set bxs. find (box_matches b) bxs = Some bx \<and> box_value bxs b = snd bx)"
proof (cases "find (box_matches b) bxs")
  case None
  then show ?thesis by (simp add: box_value_def)
next
  case (Some bx)
  then have "bx \<in> set bxs"
    by (induction bxs) (auto split: if_splits)
  with Some show ?thesis by (simp add: box_value_def)
qed

lemma box_value_nonneg:
  assumes "\<forall>bx \<in> set bxs. 0 < snd bx"
  shows "0 \<le> box_value bxs b"
  using box_value_cases [of bxs b] assms by auto

lemma box_value_pos:
  assumes "\<forall>bx \<in> set bxs. 0 < snd bx" and "find (box_matches b) bxs \<noteq> None"
  shows "0 < box_value bxs b"
  using box_value_cases [of bxs b] assms by auto

lemma sum_list_box_values_nonneg:
  assumes "\<forall>bx \<in> set bxs. 0 < snd bx"
  shows "0 \<le> sum_list (map (box_value bxs) bs)"
  by (rule sum_list_nonneg) (auto simp add: box_value_nonneg [OF assms])

lemma drop_ball_score: "score (fst (drop_ball g mx rs)) = score g"
  by (simp add: drop_ball_def split_def Let_def)

text \<open>
  C10. Every entry of \<open>BOX_VALUES\<close> is a positive integer, and every box that
  \<^verbatim>\<open>init_boxes\<close> makes carries one of them. With these boxes,
  \<^verbatim>\<open>handle_ball_box_score\<close> never lowers the score and raises it when a box matches
  the ball; one run of \<^verbatim>\<open>update_play\<close> adds the box values of the balls it scores to
  the score and so never lowers it, and it keeps the boxes. Dropping a ball leaves the
  score as it is.
\<close>

theorem score_monotone:
  "(\<forall>v \<in> set BOX_VALUES. 0 < v)
   \<and> (\<forall>bx \<in> set (boxes (init_boxes g0)). snd bx \<in> set BOX_VALUES)
   \<and> score (fst (drop_ball g mx rs)) = score g
   \<and> (boxes g = boxes (init_boxes g0) \<longrightarrow>
         score g \<le> score (handle_ball_box_score g b)
       \<and> (find (box_matches b) (boxes g) \<noteq> None \<longrightarrow> score g < score (handle_ball_box_score g b))
       \<and> (\<exists>g' rs' bs. update_play g rs = Inr (g', rs')
             \<and> score g' = score g + sum_list (map (box_value (boxes g)) bs)
             \<and> score g \<le> score g'
             \<and> boxes g' = boxes g))"
proof -
  have v: "\<forall>v \<in> set BOX_VALUES. 0 < v"
    by (simp add: BOX_VALUES_def)
  have m: "\<forall>bx \<in> set (boxes (init_boxes g0)). snd bx \<in> set BOX_VALUES"
    by (simp add: init_boxes_boxes BOX_VALUES_def)
  have rest: "score g \<le> score (handle_ball_box_score g b)
       \<and> (find (box_matches b) (boxes g) \<noteq> None \<longrightarrow> score g < score (handle_ball_box_score g b))
       \<and> (\<exists>g' rs' bs. update_play g rs = Inr (g', rs')
             \<and> score g' = score g + sum_list (map (box_value (boxes g)) bs)
             \<and> score g \<le> score g'
             \<and> boxes g' = boxes g)"
    if eq: "boxes g = boxes (init_boxes g0)"
  proof -
    have pos: "\<forall>bx \<in> set (boxes g). 0 < snd bx"
      using v m eq by auto
    from update_play_result [of g rs] obtain bs1 g' rs' where
      "update_play g rs = Inr (g', rs')"
      "score g' = score g + sum_list (map (box_value (boxes g)) (filter finalized bs1))"
      "boxes g' = boxes g"
      by blast
    moreover have "0 \<le> sum_list (map (box_value (boxes g)) (filter finalized bs1))"
      by (rule sum_list_box_values_nonneg [OF pos])
    ultimately have "\<exists>g' rs' bs. update_play g rs = Inr (g', rs')
             \<and> score g' = score g + sum_list (map (box_value (boxes g)) bs)
             \<and> score g \<le> score g'
             \<and> boxes g' = boxes g"
      by force
    then show ?thesis
      using box_value_nonneg [OF pos, of b] box_value_pos [OF pos, of b]
      by (simp add: handle_ball_box_score_value)
  qed
  show ?thesis
    using v m rest drop_ball_score by blast
qed

theorem score_monotone_witness:
  "boxes example_game_landed = boxes (init_boxes example_game)
   \<and> find (box_matches example_ball_landed) (boxes example_game_landed) \<noteq> None
   \<and> score example_game_landed < score (handle_ball_box_score example_game_landed example_ball_landed)
   \<and> (\<exists>g' rs'. update_play example_game_landed example_rng = Inr (g', rs')
         \<and> score example_game_landed \<le> score g')
   \<and> list_all (\<lambda>v. 0 < v) BOX_VALUES"
proof -
  have eq: "boxes example_game_landed = boxes (init_boxes example_game)"
    by (simp add: example_game_landed_fields example_boxes init_boxes_boxes)
  have f: "find (box_matches example_ball_landed) (boxes example_game_landed) \<noteq> None"
    by (simp add: example_game_landed_fields example_boxes box_matches_def
        example_ball_landed_def Ball_def Rect_def rect_left_def rect_right_def rect_top_def)
  from score_monotone [of example_game example_game_landed 0 example_rng example_ball_landed]
  show ?thesis
    using eq f by (auto simp add: list_all_iff)
qed


subsection \<open>C2: the ball stays between the walls\<close>

lemma spec_peg_row_bounds:
  assumes "r < NUM_PEG_ROWS" and "(x, y, rad) \<in> set (spec_peg_row r)"
  shows "85 \<le> x \<and> x \<le> 715 \<and> rad = 12"
proof -
  from assms(2) obtain i where
    i: "i < r + 3"
    and x: "x = real_of_int SCREEN_WIDTH / 2
                + (real i - real (r + 2) / 2) * real_of_int PEG_SPACING_X"
    and rad: "rad = real_of_int PEG_RADIUS"
    by (auto simp add: spec_peg_row_def)
  have r: "real r \<le> 7"
    using assms(1) by (simp add: NUM_PEG_ROWS_def)
  have i': "real i \<le> real r + 2"
    using i by linarith
  have i0: "0 \<le> real i"
    by simp
  have xe: "x = 400 + 70 * real i - 35 * real r - 70"
    by (simp add: x SCREEN_WIDTH_def PEG_SPACING_X_def algebra_simps)
  have "85 \<le> x" "x \<le> 715"
    using xe r i' i0 by linarith+
  then show ?thesis
    by (simp add: rad PEG_RADIUS_def)
qed

lemma layout_bounds:
  assumes "map peg_geometry pgs = map peg_geometry (pegs (fst (init_pegs g0 rs0)))"
    and "pg \<in> set pgs"
  shows "85 \<le> peg_x pg \<and> peg_x pg \<le> 715 \<and> peg_radius pg = 12"
proof -
  have "peg_geometry pg \<in> set (map peg_geometry pgs)"
    using assms(2) by simp
  then have "(peg_x pg, peg_y pg, peg_radius pg)
        \<in> set (concat (map spec_peg_row [0..<NUM_PEG_ROWS]))"
    by (simp only: assms(1) init_pegs_result(1) peg_geometry_def)
  then obtain r where "r < NUM_PEG_ROWS" "(peg_x pg, peg_y pg, peg_radius pg) \<in> set (spec_peg_row r)"
    by auto
  then show ?thesis by (rule spec_peg_row_bounds)
qed

lemma Ball_update_inside:
  assumes rad: "ball_radius b = real_of_int BALL_RADIUS"
    and lay: "map peg_geometry pgs = map peg_geometry (pegs (fst (init_pegs g0 rs0)))"
  shows "\<exists>b' pgs' rs'. Ball_update b pgs t rs = Inr (b', pgs', rs')
     \<and> real_of_int BALL_RADIUS \<le> ball_x b'
     \<and> ball_x b' \<le> real_of_int SCREEN_WIDTH - real_of_int BALL_RADIUS
     \<and> ball_radius b' = real_of_int BALL_RADIUS
     \<and> map peg_geometry pgs' = map peg_geometry pgs"
proof -
  from update_clamp_speed_result [of "update_gravity b"]
  obtain b1 where
    c: "update_clamp_speed (update_gravity b) = Inr b1"
    and r1: "ball_radius b1 = 12"
    by (auto simp add: update_blocks_radius rad BALL_RADIUS_def)
  define b2 where "b2 = update_ceiling (update_walls (update_integrate b1))"
  define P where "P = (\<lambda>x::ball. ball_radius x = 12 \<and> 12 \<le> ball_x x \<and> ball_x x \<le> 788)"
  have "ball_radius (update_integrate b1) = 12"
    by (simp add: update_blocks_radius r1)
  with update_walls_inside [of "update_integrate b1"]
  have P2: "P b2"
    by (simp add: P_def b2_def update_blocks_radius update_ceiling_x SCREEN_WIDTH_def)
  have "\<exists>b' pgs' rs'. update_peg_collisions b2 pgs rs = Inr (b', pgs', rs') \<and> P b'
           \<and> map peg_geometry pgs' = map peg_geometry pgs"
  proof (rule update_peg_collisions_invariant [where P = P and b = b2, OF P2])
    fix x pg rs0 x' pg' rs0'
    assume Px: "P x" and pg: "pg \<in> set pgs"
      and h: "handle_peg_collision x pg rs0 = Inr (x', pg', rs0')"
    from layout_bounds [OF lay pg]
    have pgb: "85 \<le> peg_x pg" "peg_x pg \<le> 715" "peg_radius pg = 12"
      by simp_all
    from handle_peg_collision_result [of x pg rs0] h
    have r': "ball_radius x' = ball_radius x"
      and alt: "if overlapping x pg
                then \<bar>ball_x x' - peg_x pg\<bar> \<le> ball_radius x + peg_radius pg
                else x' = x"
      by auto
    show "P x'"
    proof (cases "overlapping x pg")
      case True
      with alt have "\<bar>ball_x x' - peg_x pg\<bar> \<le> 24"
        using Px pgb by (simp add: P_def)
      then show ?thesis
        using pgb r' Px by (simp add: P_def abs_le_iff)
    next
      case False
      with alt Px show ?thesis by simp
    qed
  qed
  then obtain b3 pgs3 rs3 where
    u: "update_peg_collisions b2 pgs rs = Inr (b3, pgs3, rs3)"
    and P3: "P b3" and g3: "map peg_geometry pgs3 = map peg_geometry pgs"
    by blast
  have "Ball_update b pgs t rs = Inr (update_finalize b3 t, pgs3, rs3)"
    using c u by (simp add: Ball_update_def b2_def)
  then show ?thesis
    using P3 g3
    by (simp add: P_def update_finalize_x update_blocks_radius BALL_RADIUS_def SCREEN_WIDTH_def)
qed


lemma map_peg_geometry_Peg_update:
  "map peg_geometry (map Peg_update pgs) = map peg_geometry pgs"
  by (simp add: peg_geometry_Peg_update)

lemma update_play_inside:
  assumes lay: "map peg_geometry (pegs g) = map peg_geometry (pegs (fst (init_pegs g0 rs0)))"
    and rad: "\<forall>b \<in> set (balls g). ball_radius b = real_of_int BALL_RADIUS"
  shows "\<exists>g' rs'. update_play g rs = Inr (g', rs')
     \<and> (\<forall>b' \<in> set (balls g').
           real_of_int BALL_RADIUS \<le> ball_x b'
           \<and> ball_x b' \<le> real_of_int SCREEN_WIDTH - real_of_int BALL_RADIUS
           \<and> ball_radius b' = real_of_int BALL_RADIUS)
     \<and> map peg_geometry (pegs g') = map peg_geometry (pegs g)"
proof -
  define t where "t = real_of_int (SCREEN_HEIGHT - BOX_HEIGHT)"
  from update_play_result [of g rs] obtain bs1 pgs1 g' rs' where
    u: "update_balls (balls g) (map Peg_update (pegs g)) t rs = Inr (bs1, pgs1, rs')"
    and p: "update_play g rs = Inr (g', rs')"
    and b: "balls g' = filter (\<lambda>b. \<not> finalized b) bs1"
    and pg: "pegs g' = pgs1"
    unfolding t_def by blast
  from update_balls_result [of "balls g" "map Peg_update (pegs g)" t rs] u
  have "map peg_geometry pgs1 = map peg_geometry (map Peg_update (pegs g))"
    by (auto simp del: map_map)
  then have geo: "map peg_geometry pgs1 = map peg_geometry (pegs g)"
    by (simp only: map_peg_geometry_Peg_update)
  have inside: "real_of_int BALL_RADIUS \<le> ball_x b'
           \<and> ball_x b' \<le> real_of_int SCREEN_WIDTH - real_of_int BALL_RADIUS
           \<and> ball_radius b' = real_of_int BALL_RADIUS"
    if mem: "b' \<in> set (balls g')" for b'
  proof -
    from mem have "b' \<in> set bs1" and nf: "\<not> finalized b'"
      by (simp_all add: b)
    then obtain i where i: "i < length bs1" and bi: "bs1 ! i = b'"
      by (auto simp add: in_set_conv_nth)
    have il: "i < length (balls g)"
      using i update_balls_nth(1) [OF u] by simp
    have "\<not> finalized (balls g ! i)"
    proof
      assume f: "finalized (balls g ! i)"
      with update_balls_nth(2) [OF u] il have "bs1 ! i = balls g ! i" by simp
      with f bi nf show False by simp
    qed
    with update_balls_nth(3) [OF u] il obtain pgs0 rs0' pgs2 rs2 where
      g0: "map peg_geometry pgs0 = map peg_geometry (map Peg_update (pegs g))"
      and bu: "Ball_update (balls g ! i) pgs0 t rs0' = Inr (bs1 ! i, pgs2, rs2)"
      by blast
    have lay0: "map peg_geometry pgs0 = map peg_geometry (pegs (fst (init_pegs g0 rs0)))"
      using g0 lay by (simp only: map_peg_geometry_Peg_update)
    have r0: "ball_radius (balls g ! i) = real_of_int BALL_RADIUS"
      using rad il by simp
    from Ball_update_inside [OF r0 lay0, of t rs0'] bu
    show ?thesis by (simp add: bi)
  qed
  show ?thesis
    using p inside geo pg by blast
qed

text \<open>
  C2. Take pegs at the places of \<^verbatim>\<open>init_pegs\<close> (whatever their colours and particles)
  and balls of radius \<open>BALL_RADIUS\<close>, as every ball of the game is. Then
  \<^verbatim>\<open>Ball.update\<close> returns a ball with \<open>radius \<le> x \<le> SCREEN_WIDTH - radius\<close>, and after
  one run of \<^verbatim>\<open>update_play\<close> every ball of the game has its \<open>x\<close> in this range; the
  run keeps the radius of the balls and the places of the pegs, so the same holds after
  every later run.
\<close>

theorem wall_containment:
  assumes "map peg_geometry pgs = map peg_geometry (pegs (fst (init_pegs g0 rs0)))"
  shows "(ball_radius b = real_of_int BALL_RADIUS \<longrightarrow>
            (\<exists>b' pgs' rs'. Ball_update b pgs t rs = Inr (b', pgs', rs')
               \<and> ball_radius b' \<le> ball_x b'
               \<and> ball_x b' \<le> real_of_int SCREEN_WIDTH - ball_radius b'
               \<and> ball_radius b' = real_of_int BALL_RADIUS))
       \<and> (pegs g = pgs \<and> (\<forall>x \<in> set (balls g). ball_radius x = real_of_int BALL_RADIUS) \<longrightarrow>
            (\<exists>g' rs'. update_play g rs = Inr (g', rs')
               \<and> (\<forall>b' \<in> set (balls g').
                     ball_radius b' \<le> ball_x b'
                     \<and> ball_x b' \<le> real_of_int SCREEN_WIDTH - ball_radius b'
                     \<and> ball_radius b' = real_of_int BALL_RADIUS)
               \<and> map peg_geometry (pegs g') = map peg_geometry (pegs g)))"
proof (intro conjI impI)
  assume "ball_radius b = real_of_int BALL_RADIUS"
  from Ball_update_inside [OF this assms, of t rs]
  show "\<exists>b' pgs' rs'. Ball_update b pgs t rs = Inr (b', pgs', rs')
               \<and> ball_radius b' \<le> ball_x b'
               \<and> ball_x b' \<le> real_of_int SCREEN_WIDTH - ball_radius b'
               \<and> ball_radius b' = real_of_int BALL_RADIUS"
    by auto
next
  assume a: "pegs g = pgs \<and> (\<forall>x \<in> set (balls g). ball_radius x = real_of_int BALL_RADIUS)"
  then have lay: "map peg_geometry (pegs g) = map peg_geometry (pegs (fst (init_pegs g0 rs0)))"
    using assms by simp
  from a have rad: "\<forall>x \<in> set (balls g). ball_radius x = real_of_int BALL_RADIUS"
    by simp
  from update_play_inside [OF lay rad, of rs]
  show "\<exists>g' rs'. update_play g rs = Inr (g', rs')
               \<and> (\<forall>b' \<in> set (balls g').
                     ball_radius b' \<le> ball_x b'
                     \<and> ball_x b' \<le> real_of_int SCREEN_WIDTH - ball_radius b'
                     \<and> ball_radius b' = real_of_int BALL_RADIUS)
               \<and> map peg_geometry (pegs g') = map peg_geometry (pegs g)"
    by auto
qed

lemma example_game_pegs_fields:
  "pegs example_game_pegs = pegs (fst (init_pegs example_game example_rng))"
  "balls example_game_pegs = [example_ball]"
  "ball_radius example_ball = real_of_int BALL_RADIUS"
  by (simp_all add: example_game_pegs_def example_ball_def Ball_def BALL_RADIUS_def)

theorem wall_containment_witness:
  "map peg_geometry (pegs example_game_pegs)
     = map peg_geometry (pegs (fst (init_pegs example_game example_rng)))
   \<and> ball_radius example_ball = real_of_int BALL_RADIUS
   \<and> list_all (\<lambda>x. ball_radius x = real_of_int BALL_RADIUS) (balls example_game_pegs)
   \<and> (\<exists>b' pgs' rs'. Ball_update example_ball (pegs example_game_pegs) 520 example_rng
                       = Inr (b', pgs', rs')
         \<and> 12 \<le> ball_x b' \<and> ball_x b' \<le> 788)
   \<and> (\<exists>g' rs'. update_play example_game_pegs example_rng = Inr (g', rs')
         \<and> list_all (\<lambda>b'. 12 \<le> ball_x b' \<and> ball_x b' \<le> 788) (balls g'))"
proof -
  have lay: "map peg_geometry (pegs example_game_pegs)
     = map peg_geometry (pegs (fst (init_pegs example_game example_rng)))"
    by (simp add: example_game_pegs_fields)
  have rad: "ball_radius example_ball = real_of_int BALL_RADIUS"
    by (rule example_game_pegs_fields)
  have all: "\<forall>x \<in> set (balls example_game_pegs). ball_radius x = real_of_int BALL_RADIUS"
    by (simp add: example_game_pegs_fields)
  note w = wall_containment [OF lay, of example_ball 520 example_rng example_game_pegs]
  from w rad have 1: "\<exists>b' pgs' rs'. Ball_update example_ball (pegs example_game_pegs) 520 example_rng
                       = Inr (b', pgs', rs')
         \<and> 12 \<le> ball_x b' \<and> ball_x b' \<le> 788"
    by (auto simp add: BALL_RADIUS_def SCREEN_WIDTH_def)
  from w all have "\<exists>g' rs'. update_play example_game_pegs example_rng = Inr (g', rs')
         \<and> (\<forall>b' \<in> set (balls g'). ball_radius b' \<le> ball_x b'
                     \<and> ball_x b' \<le> real_of_int SCREEN_WIDTH - ball_radius b'
                     \<and> ball_radius b' = real_of_int BALL_RADIUS)"
    by blast
  then obtain g' rs' where
    p: "update_play example_game_pegs example_rng = Inr (g', rs')"
    and a: "\<forall>b' \<in> set (balls g'). ball_radius b' \<le> ball_x b'
                     \<and> ball_x b' \<le> real_of_int SCREEN_WIDTH - ball_radius b'
                     \<and> ball_radius b' = real_of_int BALL_RADIUS"
    by blast
  have "list_all (\<lambda>b'. 12 \<le> ball_x b' \<and> ball_x b' \<le> 788) (balls g')"
    unfolding list_all_iff
  proof
    fix b' assume "b' \<in> set (balls g')"
    with a have "ball_radius b' \<le> ball_x b'"
      "ball_x b' \<le> real_of_int SCREEN_WIDTH - ball_radius b'"
      "ball_radius b' = real_of_int BALL_RADIUS"
      by blast+
    then show "12 \<le> ball_x b' \<and> ball_x b' \<le> 788"
      by (simp add: BALL_RADIUS_def SCREEN_WIDTH_def)
  qed
  with p have 2: "\<exists>g' rs'. update_play example_game_pegs example_rng = Inr (g', rs')
         \<and> list_all (\<lambda>b'. 12 \<le> ball_x b' \<and> ball_x b' \<le> 788) (balls g')"
    by blast
  show ?thesis
    using lay rad all 1 2 by (simp add: list_all_iff)
qed
end
